theory Spec2Isabelle
  imports Main
begin

text \<open>
  A shallow embedding of the knowledge-graph memory layer of Open Canvas: the extractor
  and the contradiction heuristics of \<open>graphrag-write.ts\<close>, the graph client
  \<open>graphdb.ts\<close>, and the two write paths, over a model of the property graph store
  that gives the Cypher statements of the code their meaning. Each part is followed by
  the properties proved of it.
\<close>

section \<open>Strings as JavaScript sees them\<close>

text \<open>
  Texts are lists of characters. The model covers texts of ASCII characters: letters are
  \<open>A-Z\<close> and \<open>a-z\<close>, white space is tab, line feed, vertical tab, form feed, carriage
  return and space, and \<open>length\<close> is the number of characters (JavaScript counts UTF-16
  code units, the same number on ASCII text).
\<close>

definition isUpperAZ :: "char \<Rightarrow> bool" where
  "isUpperAZ c \<longleftrightarrow> 65 \<le> (of_char c :: nat) \<and> (of_char c :: nat) \<le> 90"

definition isLowerAZ :: "char \<Rightarrow> bool" where
  "isLowerAZ c \<longleftrightarrow> 97 \<le> (of_char c :: nat) \<and> (of_char c :: nat) \<le> 122"

definition isDigit09 :: "char \<Rightarrow> bool" where
  "isDigit09 c \<longleftrightarrow> 48 \<le> (of_char c :: nat) \<and> (of_char c :: nat) \<le> 57"

text \<open>The class \<open>\w\<close> of a regular expression: \<open>[A-Za-z0-9_]\<close>.\<close>

definition isWordChar :: "char \<Rightarrow> bool" where
  "isWordChar c \<longleftrightarrow> isUpperAZ c \<or> isLowerAZ c \<or> isDigit09 c \<or> c = CHR ''_''"

text \<open>The class \<open>\s\<close>, also what \<open>trim\<close> removes.\<close>

definition isSpace :: "char \<Rightarrow> bool" where
  "isSpace c \<longleftrightarrow> (of_char c :: nat) \<in> {9, 10, 11, 12, 13, 32}"

text \<open>The dot of a regular expression matches every character but a line terminator.\<close>

definition isLineTerminator :: "char \<Rightarrow> bool" where
  "isLineTerminator c \<longleftrightarrow> (of_char c :: nat) \<in> {10, 13}"

definition toLowerChar :: "char \<Rightarrow> char" where
  "toLowerChar c = (if isUpperAZ c then char_of ((of_char c :: nat) + 32) else c)"

definition toLowerCase :: "string \<Rightarrow> string" where
  "toLowerCase s = map toLowerChar s"

definition trim :: "string \<Rightarrow> string" where
  "trim s = rev (dropWhile isSpace (rev (dropWhile isSpace s)))"

text \<open>\<open>s.includes(t)\<close>: \<open>t\<close> occurs in \<open>s\<close> as a contiguous run of characters.\<close>

fun str_includes :: "string \<Rightarrow> string \<Rightarrow> bool" where
  "str_includes [] t = (t = [])"
| "str_includes (c # cs) t = (take (length t) (c # cs) = t \<or> str_includes cs t)"

text \<open>
  \<open>s.split(/\s+/)\<close>: the pieces between maximal runs of white space; a text that starts
  or ends with white space has an empty first or last piece, as in JavaScript.
\<close>

function splitAux :: "string \<Rightarrow> string \<Rightarrow> string list" where
  "splitAux [] cur = [rev cur]"
| "splitAux (c # cs) cur =
     (if isSpace c then rev cur # splitAux (dropWhile isSpace cs) []
      else splitAux cs (c # cur))"
  by pat_completeness auto
termination
  by (relation "measure (\<lambda>(s, cur). length s)")
     (auto simp: length_dropWhile_le less_Suc_eq_le)

definition splitWs :: "string \<Rightarrow> string list" where
  "splitWs s = splitAux s []"

text \<open>
  \<open>new Set(xs)\<close> and a \<open>Map\<close> filled in a loop keep the first occurrence of every
  key, in insertion order.
\<close>

fun dedupeFirst :: "'a list \<Rightarrow> 'a list \<Rightarrow> 'a list" where
  "dedupeFirst seen [] = []"
| "dedupeFirst seen (x # xs) =
     (if x \<in> set seen then dedupeFirst seen xs else x # dedupeFirst (x # seen) xs)"

fun joinWith :: "string \<Rightarrow> string list \<Rightarrow> string" where
  "joinWith sep [] = []"
| "joinWith sep [x] = x"
| "joinWith sep (x # y # ys) = x @ sep @ joinWith sep (y # ys)"

section \<open>Regular expressions, with JavaScript's backtracking order\<close>

text \<open>
  The fragment the write path uses: character classes, sequence, ordered alternation,
  the greedy star, the lazy star, the word boundary \<open>\b\<close> and the end of input \<open>$\<close>
  (no multi-line flag is ever set). \<open>ends s r i\<close> lists the positions where a match of
  \<open>r\<close> that starts at position \<open>i\<close> of \<open>s\<close> can end, in the order in which a
  backtracking matcher tries them: the head of the list is the match JavaScript reports.
\<close>

datatype rx = Eps | Sat "char \<Rightarrow> bool" | Seq rx rx | Alt rx rx
  | Star rx | LazyStar rx | WordB | Eos

text \<open>
  A star takes as many rounds as it can before it gives one back; the lazy star tries the
  fewest rounds first. A round that consumes nothing is rejected, as ECMAScript
  prescribes, so every round advances, and \<open>length s - i\<close> rounds are all that a match
  from position \<open>i\<close> can take: the bound \<open>n\<close> below cuts nothing off.
\<close>

primrec starGreedy :: "(nat \<Rightarrow> nat list) \<Rightarrow> nat \<Rightarrow> nat \<Rightarrow> nat list" where
  "starGreedy f 0 i = [i]"
| "starGreedy f (Suc n) i =
     concat (map (starGreedy f n) (filter (\<lambda>j. i < j) (f i))) @ [i]"

primrec starLazy :: "(nat \<Rightarrow> nat list) \<Rightarrow> nat \<Rightarrow> nat \<Rightarrow> nat list" where
  "starLazy f 0 i = [i]"
| "starLazy f (Suc n) i =
     i # concat (map (starLazy f n) (filter (\<lambda>j. i < j) (f i)))"

definition wordAt :: "string \<Rightarrow> nat \<Rightarrow> bool" where
  "wordAt s i \<longleftrightarrow> i < length s \<and> isWordChar (s ! i)"

definition wordBoundary :: "string \<Rightarrow> nat \<Rightarrow> bool" where
  "wordBoundary s i \<longleftrightarrow> ((0 < i \<and> wordAt s (i - 1)) \<noteq> wordAt s i)"

fun ends :: "string \<Rightarrow> rx \<Rightarrow> nat \<Rightarrow> nat list" where
  "ends s Eps i = [i]"
| "ends s (Sat P) i = (if i < length s \<and> P (s ! i) then [Suc i] else [])"
| "ends s (Seq a b) i = concat (map (\<lambda>j. ends s b j) (ends s a i))"
| "ends s (Alt a b) i = ends s a i @ ends s b i"
| "ends s (Star a) i = starGreedy (\<lambda>j. ends s a j) (length s - i) i"
| "ends s (LazyStar a) i = starLazy (\<lambda>j. ends s a j) (length s - i) i"
| "ends s WordB i = (if wordBoundary s i then [i] else [])"
| "ends s Eos i = (if i = length s then [i] else [])"

definition seqs :: "rx list \<Rightarrow> rx" where
  "seqs rs = foldr Seq rs Eps"

definition alts :: "rx list \<Rightarrow> rx" where
  "alts rs = foldr Alt (butlast rs) (last rs)"

definition plus :: "rx \<Rightarrow> rx" where
  "plus r = Seq r (Star r)"

definition lazyPlus :: "rx \<Rightarrow> rx" where
  "lazyPlus r = Seq r (LazyStar r)"

text \<open>A literal text under the flag \<open>i\<close> (case-insensitive), and without it.\<close>

definition ci :: "string \<Rightarrow> rx" where
  "ci t = seqs (map (\<lambda>c. Sat (\<lambda>x. toLowerChar x = toLowerChar c)) t)"

definition cs :: "string \<Rightarrow> rx" where
  "cs t = seqs (map (\<lambda>c. Sat (\<lambda>x. x = c)) t)"

text \<open>
  \<open>pattern.exec(content)\<close> with \<open>lastIndex\<close>: the leftmost start position at or after
  \<open>lastIndex\<close> where the pattern matches, with the end of the match found first.
\<close>

primrec execFrom :: "string \<Rightarrow> rx \<Rightarrow> nat \<Rightarrow> nat \<Rightarrow> (nat \<times> nat) option" where
  "execFrom s r 0 i = None"
| "execFrom s r (Suc n) i =
     (case ends s r i of j # _ \<Rightarrow> Some (i, j) | [] \<Rightarrow> execFrom s r n (Suc i))"

definition exec :: "string \<Rightarrow> rx \<Rightarrow> nat \<Rightarrow> (nat \<times> nat) option" where
  "exec s r lastIndex = execFrom s r (Suc (length s) - lastIndex) lastIndex"

text \<open>\<open>pattern.test(text)\<close> on a pattern without the flag \<open>g\<close>.\<close>

definition rxTest :: "rx \<Rightarrow> string \<Rightarrow> bool" where
  "rxTest r s \<longleftrightarrow> exec s r 0 \<noteq> None"

text \<open>
  Matches never run past the text and never end before they start; a pattern with a
  character it must consume never matches the empty text.
\<close>

lemma starGreedy_le:
  assumes "\<And>i j. i \<le> N \<Longrightarrow> j \<in> set (f i) \<Longrightarrow> j \<le> N"
  shows "i \<le> N \<Longrightarrow> j \<in> set (starGreedy f n i) \<Longrightarrow> j \<le> N"
proof (induction n arbitrary: i j)
  case 0
  then show ?case by simp
next
  case (Suc n)
  from Suc.prems(2) consider "j = i"
    | k where "k \<in> set (f i)" "i < k" "j \<in> set (starGreedy f n k)"
    by auto
  then show ?case
  proof cases
    case 1
    with Suc.prems show ?thesis by simp
  next
    case 2
    from assms [OF Suc.prems(1) 2(1)] have "k \<le> N" .
    from Suc.IH [OF this 2(3)] show ?thesis .
  qed
qed

lemma starLazy_le:
  assumes "\<And>i j. i \<le> N \<Longrightarrow> j \<in> set (f i) \<Longrightarrow> j \<le> N"
  shows "i \<le> N \<Longrightarrow> j \<in> set (starLazy f n i) \<Longrightarrow> j \<le> N"
proof (induction n arbitrary: i j)
  case 0
  then show ?case by simp
next
  case (Suc n)
  from Suc.prems(2) consider "j = i"
    | k where "k \<in> set (f i)" "i < k" "j \<in> set (starLazy f n k)"
    by auto
  then show ?case
  proof cases
    case 1
    with Suc.prems show ?thesis by simp
  next
    case 2
    from assms [OF Suc.prems(1) 2(1)] have "k \<le> N" .
    from Suc.IH [OF this 2(3)] show ?thesis .
  qed
qed

lemma starGreedy_ge: "j \<in> set (starGreedy f n i) \<Longrightarrow> i \<le> j"
proof (induction n arbitrary: i j)
  case 0
  then show ?case by simp
next
  case (Suc n)
  from Suc.prems consider "j = i"
    | k where "k \<in> set (f i)" "i < k" "j \<in> set (starGreedy f n k)"
    by auto
  then show ?case
  proof cases
    case 1
    then show ?thesis by simp
  next
    case 2
    from Suc.IH [OF 2(3)] 2(2) show ?thesis by simp
  qed
qed

lemma starLazy_ge: "j \<in> set (starLazy f n i) \<Longrightarrow> i \<le> j"
proof (induction n arbitrary: i j)
  case 0
  then show ?case by simp
next
  case (Suc n)
  from Suc.prems consider "j = i"
    | k where "k \<in> set (f i)" "i < k" "j \<in> set (starLazy f n k)"
    by auto
  then show ?case
  proof cases
    case 1
    then show ?thesis by simp
  next
    case 2
    from Suc.IH [OF 2(3)] 2(2) show ?thesis by simp
  qed
qed

lemma ends_le: "i \<le> length s \<Longrightarrow> j \<in> set (ends s r i) \<Longrightarrow> j \<le> length s"
proof (induction r arbitrary: i j)
  case Eps
  then show ?case by simp
next
  case (Sat P)
  then show ?case by (cases "i < length s \<and> P (s ! i)") simp_all
next
  case (Seq a b)
  from Seq.prems(2) obtain k where k: "k \<in> set (ends s a i)" "j \<in> set (ends s b k)"
    by auto
  from Seq.IH(1) [OF Seq.prems(1) k(1)] have "k \<le> length s" .
  from Seq.IH(2) [OF this k(2)] show ?case .
next
  case (Alt a b)
  from Alt.prems(2) have "j \<in> set (ends s a i) \<or> j \<in> set (ends s b i)" by simp
  then show ?case using Alt.IH(1) [OF Alt.prems(1)] Alt.IH(2) [OF Alt.prems(1)] by blast
next
  case (Star r)
  have h: "\<And>i j. i \<le> length s \<Longrightarrow> j \<in> set (ends s r i) \<Longrightarrow> j \<le> length s"
    by (rule Star.IH)
  from Star.prems(2) have "j \<in> set (starGreedy (\<lambda>j. ends s r j) (length s - i) i)" by simp
  from starGreedy_le [of "length s" "\<lambda>j. ends s r j", OF h Star.prems(1) this]
  show ?case .
next
  case (LazyStar r)
  have h: "\<And>i j. i \<le> length s \<Longrightarrow> j \<in> set (ends s r i) \<Longrightarrow> j \<le> length s"
    by (rule LazyStar.IH)
  from LazyStar.prems(2) have "j \<in> set (starLazy (\<lambda>j. ends s r j) (length s - i) i)" by simp
  from starLazy_le [of "length s" "\<lambda>j. ends s r j", OF h LazyStar.prems(1) this]
  show ?case .
next
  case WordB
  then show ?case by (cases "wordBoundary s i") simp_all
next
  case Eos
  then show ?case by (cases "i = length s") simp_all
qed

lemma ends_ge: "j \<in> set (ends s r i) \<Longrightarrow> i \<le> j"
proof (induction r arbitrary: i j)
  case (Seq a b)
  from Seq.prems obtain k where k: "k \<in> set (ends s a i)" "j \<in> set (ends s b k)"
    by auto
  from Seq.IH(1) [OF k(1)] Seq.IH(2) [OF k(2)] show ?case by simp
next
  case (Alt a b)
  then show ?case by auto
next
  case (Star r)
  then show ?case by (simp add: starGreedy_ge)
next
  case (LazyStar r)
  then show ?case by (simp add: starLazy_ge)
qed (simp_all split: if_splits)

fun consumes :: "rx \<Rightarrow> bool" where
  "consumes (Sat P) = True"
| "consumes (Seq a b) = (consumes a \<or> consumes b)"
| "consumes (Alt a b) = (consumes a \<and> consumes b)"
| "consumes r = False"

lemma ends_consumes: "consumes r \<Longrightarrow> j \<in> set (ends s r i) \<Longrightarrow> i < j"
proof (induction r arbitrary: i j)
  case (Sat P)
  then show ?case by (cases "i < length s \<and> P (s ! i)") simp_all
next
  case (Seq a b)
  from Seq.prems(2) obtain k where k: "k \<in> set (ends s a i)" "j \<in> set (ends s b k)"
    by auto
  from k have le: "i \<le> k" "k \<le> j" by (auto dest: ends_ge)
  from Seq.prems(1) have "consumes a \<or> consumes b" by simp
  then show ?case
  proof
    assume "consumes a"
    from Seq.IH(1) [OF this k(1)] le show ?thesis by simp
  next
    assume "consumes b"
    from Seq.IH(2) [OF this k(2)] le show ?thesis by simp
  qed
next
  case (Alt a b)
  from Alt.prems(2) have "j \<in> set (ends s a i) \<or> j \<in> set (ends s b i)" by simp
  then show ?case using Alt.IH Alt.prems(1) by auto
qed simp_all

lemma execFrom_Some:
  "execFrom s r n k = Some (i, j) \<Longrightarrow> k \<le> i \<and> i < k + n \<and> j \<in> set (ends s r i)"
proof (induction n arbitrary: k)
  case 0
  then show ?case by simp
next
  case (Suc n)
  show ?case
  proof (cases "ends s r k")
    case Nil
    with Suc.prems have "execFrom s r n (Suc k) = Some (i, j)" by simp
    from Suc.IH [OF this] show ?thesis by simp
  next
    case (Cons a as)
    with Suc.prems have "i = k" "j = a" by simp_all
    with Cons show ?thesis by simp
  qed
qed

lemma exec_Some:
  assumes "exec s r k = Some (i, j)"
  shows "k \<le> i \<and> i \<le> length s \<and> i \<le> j \<and> j \<le> length s"
proof -
  from assms have "execFrom s r (Suc (length s) - k) k = Some (i, j)"
    by (simp add: exec_def)
  from execFrom_Some [OF this]
  have h: "k \<le> i" "i < k + (Suc (length s) - k)" "j \<in> set (ends s r i)" by simp_all
  from h(1,2) have "i \<le> length s" by arith
  with h(1,3) ends_ge [OF h(3)] ends_le [OF _ h(3)] show ?thesis by simp
qed

text \<open>
  The loop \<open>while ((match = pattern.exec(content)) !== null)\<close> over a pattern with the
  flag \<open>g\<close>: every match moves \<open>lastIndex\<close> to its end, and the result lists
  \<open>match[0]\<close> of every round. A round with an empty match would leave \<open>lastIndex\<close>
  where it is and JavaScript would loop for ever; the patterns of the write path all
  consume a character (\<open>ends_consumes\<close>, \<open>patterns_consume\<close>), so that branch is
  never taken.
\<close>

function matchLoop :: "string \<Rightarrow> rx \<Rightarrow> nat \<Rightarrow> string list" where
  "matchLoop s r lastIndex =
     (case exec s r lastIndex of
        None \<Rightarrow> []
      | Some (i, j) \<Rightarrow>
          if i < j then take (j - i) (drop i s) # matchLoop s r j else [])"
  by pat_completeness auto
termination
proof (relation "measure (\<lambda>(s, r, k). Suc (length s) - k)")
  show "wf (measure (\<lambda>(s, r, k). Suc (length s) - k))" by simp
next
  fix s r lastIndex x2 i j
  assume "exec s r lastIndex = Some x2" "(i, j) = x2" "i < j"
  then have "exec s r lastIndex = Some (i, j)" by simp
  from exec_Some [OF this] \<open>i < j\<close>
  have "Suc (length s) - j < Suc (length s) - lastIndex" by arith
  then show "((s, r, j), (s, r, lastIndex)) \<in> measure (\<lambda>(s, r, k). Suc (length s) - k)"
    by simp
qed

definition allMatches :: "string \<Rightarrow> rx \<Rightarrow> string list" where
  "allMatches s r = matchLoop s r 0"

section \<open>The extractor (\<open>extractFromMessages\<close>)\<close>

definition COMMON_WORDS :: "string list" where
  "COMMON_WORDS =
    [''the'', ''this'', ''that'', ''with'', ''from'', ''have'', ''been'', ''will'',
     ''would'', ''could'', ''should'', ''about'', ''what'', ''when'', ''where'',
     ''which'', ''there'', ''their'', ''here'', ''just'', ''also'', ''then'', ''than'',
     ''more'', ''some'', ''other'', ''into'', ''only'', ''very'', ''well'', ''much'',
     ''each'', ''every'', ''both'', ''after'', ''before'', ''between'', ''through'',
     ''during'', ''without'', ''within'', ''along'', ''among'', ''however'',
     ''although'', ''because'', ''since'', ''while'', ''please'', ''thanks'', ''thank'',
     ''hello'', ''sure'', ''okay'', ''yes'', ''not'']"

text \<open>
  The characters that Isabelle's own string syntax reserves: the apostrophe of
  \<open>don't\<close>, the double quote and the back quote.
\<close>

definition apostrophe :: char where "apostrophe = CHR 0x27"
definition doubleQuote :: char where "doubleQuote = CHR 0x22"
definition backQuote :: char where "backQuote = CHR 0x60"

definition dont_use :: string where
  "dont_use = ''don'' @ [apostrophe] @ ''t use''"

definition dont :: string where
  "dont = ''don'' @ [apostrophe] @ ''t''"

text \<open>
  The four preference patterns, all with the flags \<open>gi\<close>. Each ends in
  \<open>\s+(.+?)(?:\.|$)\<close>: white space, the shortest non-empty run of characters of one
  line, then a full stop or the end of the text.
\<close>

definition phraseTail :: "rx list" where
  "phraseTail =
     [plus (Sat isSpace), lazyPlus (Sat (\<lambda>c. \<not> isLineTerminator c)), Alt (cs ''.'') Eos]"

definition preferencePatterns :: "rx list" where
  "preferencePatterns =
     [seqs ([ci ''I'', plus (Sat isSpace),
             alts [ci ''prefer'', ci ''like'', ci ''want'', ci ''need'']] @ phraseTail),
      seqs ([alts [ci ''always'', ci ''never'']] @ phraseTail),
      seqs ([alts [ci ''use'', ci ''avoid'', ci dont_use, ci ''do not use'']] @ phraseTail),
      seqs ([alts [ci ''make it'', ci ''keep it'', ci ''write in'']] @ phraseTail)]"

text \<open>
  \<open>/\b(don't|never|avoid|stop|no longer|not anymore)\b/i\<close> and
  \<open>/\b(used to|previously|before)\b/i\<close>.
\<close>

definition negationCue :: rx where
  "negationCue =
     seqs [WordB,
           alts [ci dont, ci ''never'', ci ''avoid'', ci ''stop'', ci ''no longer'',
                 ci ''not anymore''],
           WordB]"

definition pastCue :: rx where
  "pastCue = seqs [WordB, alts [ci ''used to'', ci ''previously'', ci ''before''], WordB]"

text \<open>
  The three concept patterns, with the flag \<open>g\<close> only, each paired with the function
  that takes \<open>match[0]\<close> to the captured group \<open>match[1]\<close>: the group of the first
  pattern spans the whole match (both \<open>\b\<close> are empty), the group of the other two is
  the match without its opening and closing quote.
\<close>

definition capitalized :: rx where
  "capitalized = Seq (Sat isUpperAZ) (plus (Sat isLowerAZ))"

definition unquote :: "string \<Rightarrow> string" where
  "unquote m = butlast (tl m)"

definition conceptPatterns :: "(rx \<times> (string \<Rightarrow> string)) list" where
  "conceptPatterns =
     [(seqs [WordB, capitalized, Star (Seq (plus (Sat isSpace)) capitalized), WordB],
       \<lambda>m. m),
      (seqs [cs [doubleQuote], plus (Sat (\<lambda>c. c \<noteq> doubleQuote)), cs [doubleQuote]],
       unquote),
      (seqs [cs [backQuote], plus (Sat (\<lambda>c. c \<noteq> backQuote)), cs [backQuote]],
       unquote)]"

lemma patterns_consume:
  "list_all consumes preferencePatterns"
  "list_all (\<lambda>p. consumes (fst p)) conceptPatterns"
  by (simp_all add: preferencePatterns_def conceptPatterns_def phraseTail_def seqs_def
      alts_def ci_def cs_def plus_def lazyPlus_def capitalized_def)

record Message =
  role :: string
  content :: string

record WriteToGraphParams =
  userId :: string
  sessionId :: string
  artifactId :: "string option"
  messages :: "Message list"
  artifactContent :: "string option"

text \<open>
  \<open>confidence\<close> is kept in hundredths: \<open>70\<close> stands for \<open>0.7\<close>. The field \<open>type\<close>
  of an entity is \<open>entityType\<close> here.
\<close>

record ExtractedEntity =
  name :: string
  entityType :: string

record ExtractedRelation =
  source :: string
  target :: string
  relType :: string

record ExtractedStyleRule =
  rule :: string
  scope :: string
  temporalMarker :: string
  confidence :: "nat option"
  strict :: "bool option"

record ExtractionResult =
  entities :: "ExtractedEntity list"
  relations :: "ExtractedRelation list"
  styleRules :: "ExtractedStyleRule list"
  rawSnippet :: string

definition detectMarker :: "string \<Rightarrow> string" where
  "detectMarker ruleText =
     (if rxTest negationCue ruleText then ''negated''
      else if rxTest pastCue ruleText then ''past''
      else ''current'')"

text \<open>
  The loops of \<open>extractFromMessages\<close>. The accumulators \<open>styleRules\<close>, \<open>entities\<close>
  and \<open>snippets\<close> of the source are \<open>rules\<close>, \<open>ents\<close> and \<open>snips\<close> here, and
  \<open>content\<close> is \<open>text\<close> (the source's names are the record fields).

  The body of the inner \<open>while\<close> loop over the matches of one preference pattern:
\<close>

fun pushRules :: "string list \<Rightarrow> ExtractedStyleRule list \<Rightarrow> ExtractedStyleRule list" where
  "pushRules [] rules = rules"
| "pushRules (m # ms) rules =
     (let ruleText = trim m in
      if 10 < length ruleText \<and> length ruleText < 200
      then pushRules ms
             (rules @
              [\<lparr>rule = ruleText, scope = ''global'', temporalMarker = detectMarker ruleText,
                confidence = Some 70, strict = None\<rparr>])
      else pushRules ms rules)"

fun forPreferencePatterns ::
  "rx list \<Rightarrow> string \<Rightarrow> ExtractedStyleRule list \<Rightarrow> ExtractedStyleRule list" where
  "forPreferencePatterns [] text rules = rules"
| "forPreferencePatterns (pattern # ps) text rules =
     forPreferencePatterns ps text (pushRules (allMatches text pattern) rules)"

text \<open>The body of the inner \<open>while\<close> loop over the matches of one concept pattern.\<close>

fun pushEntities ::
  "(string \<Rightarrow> string) \<Rightarrow> string list \<Rightarrow> ExtractedEntity list \<Rightarrow> ExtractedEntity list" where
  "pushEntities group1 [] ents = ents"
| "pushEntities group1 (m # ms) ents =
     (let nm = trim (group1 m) in
      if 2 < length nm \<and> length nm < 100 \<and> toLowerCase nm \<notin> set COMMON_WORDS
      then pushEntities group1 ms
             (ents @ [\<lparr>name = toLowerCase nm, entityType = ''Concept''\<rparr>])
      else pushEntities group1 ms ents)"

fun forConceptPatterns ::
  "(rx \<times> (string \<Rightarrow> string)) list \<Rightarrow> string \<Rightarrow> ExtractedEntity list \<Rightarrow> ExtractedEntity list"
  where
  "forConceptPatterns [] text ents = ents"
| "forConceptPatterns ((pattern, group1) # ps) text ents =
     forConceptPatterns ps text (pushEntities group1 (allMatches text pattern) ents)"

text \<open>
  The loop over the messages. A message whose role is neither \<open>human\<close> nor \<open>user\<close>
  is skipped by the \<open>continue\<close> of the first line.
\<close>

fun forMessages ::
  "Message list \<Rightarrow> ExtractedEntity list \<times> ExtractedStyleRule list \<times> string list \<Rightarrow>
   ExtractedEntity list \<times> ExtractedStyleRule list \<times> string list" where
  "forMessages [] acc = acc"
| "forMessages (msg # rest) (ents, rules, snips) =
     (if role msg \<noteq> ''human'' \<and> role msg \<noteq> ''user''
      then forMessages rest (ents, rules, snips)
      else forMessages rest
             (forConceptPatterns conceptPatterns (content msg) ents,
              forPreferencePatterns preferencePatterns (content msg) rules,
              snips @ [take 200 (content msg)]))"

text \<open>
  Entities are deduplicated by name through a \<open>Map\<close>; all entities of one name are
  equal records, so the first occurrence stands for the entry.
\<close>

definition extractFromMessages :: "WriteToGraphParams \<Rightarrow> ExtractionResult" where
  "extractFromMessages params =
     (case forMessages (messages params) ([], [], []) of
        (ents, rules, snips) \<Rightarrow>
          \<lparr>entities = dedupeFirst [] ents,
           relations = [],
           styleRules = rules,
           rawSnippet = take 500 (joinWith '' | '' snips)\<rparr>)"

section \<open>Contradiction heuristics (\<open>detectSimpleContradiction\<close>)\<close>

definition opposingPairs :: "(string \<times> string) list" where
  "opposingPairs =
     [(''formal'', ''casual''), (''formal'', ''informal''), (''verbose'', ''concise''),
      (''detailed'', ''brief''), (''simple'', ''complex''), (''short'', ''long''),
      (''technical'', ''simple''), (''professional'', ''casual''),
      (''serious'', ''humorous''), (''passive'', ''active'')]"

text \<open>
  \<open>new Set(lower.split(/\s+/).filter((w) => w.length > 3 && !COMMON_WORDS.has(w)))\<close>,
  as the list of its elements in insertion order.
\<close>

definition significantWords :: "string \<Rightarrow> string list" where
  "significantWords lower =
     dedupeFirst [] (filter (\<lambda>w. 3 < length w \<and> w \<notin> set COMMON_WORDS) (splitWs lower))"

text \<open>The loop over the opposing pairs, with its early \<open>return true\<close>.\<close>

fun forOpposingPairs :: "(string \<times> string) list \<Rightarrow> string \<Rightarrow> string \<Rightarrow> bool" where
  "forOpposingPairs [] lower1 lower2 = False"
| "forOpposingPairs ((a, b) # ps) lower1 lower2 =
     (if (str_includes lower1 a \<and> str_includes lower2 b) \<or>
         (str_includes lower1 b \<and> str_includes lower2 a)
      then True
      else forOpposingPairs ps lower1 lower2)"

definition detectSimpleContradiction :: "string \<Rightarrow> string \<Rightarrow> string \<Rightarrow> bool" where
  "detectSimpleContradiction newRule existingRule newTemporalMarker =
     (let lower1 = toLowerCase newRule;
          lower2 = toLowerCase existingRule
      in if newTemporalMarker = ''negated'' \<and>
            filter (\<lambda>w. w \<in> set (significantWords lower2)) (significantWords lower1) \<noteq> []
         then True
         else forOpposingPairs opposingPairs lower1 lower2)"

text \<open>
  The words of the specification, to compare the code with: the content words of a rule
  text are the pieces of its lower-cased form between white space that are longer than
  three characters and are no stop words; a text contains a keyword when the keyword is
  a contiguous part of it; the preference-phrase matches of a text are the trimmed
  matches of the four preference patterns.
\<close>

definition contentWords :: "string \<Rightarrow> string set" where
  "contentWords t =
     {w \<in> set (splitWs (toLowerCase t)). 3 < length w \<and> w \<notin> set COMMON_WORDS}"

definition containsText :: "string \<Rightarrow> string \<Rightarrow> bool" where
  "containsText s t \<longleftrightarrow> (\<exists>u v. s = u @ t @ v)"

definition phraseMatches :: "string \<Rightarrow> string list" where
  "phraseMatches t =
     concat (map (\<lambda>pattern. map trim (allMatches t pattern)) preferencePatterns)"

definition humanTurn :: "Message \<Rightarrow> bool" where
  "humanTurn msg \<longleftrightarrow> role msg = ''human'' \<or> role msg = ''user''"

section \<open>Properties of the extractor and of the contradiction heuristics\<close>

lemma set_dedupeFirst: "set (dedupeFirst seen xs) = set xs - set seen"
  by (induction seen xs rule: dedupeFirst.induct) auto

lemma str_includes_iff: "str_includes s t \<longleftrightarrow> containsText s t"
proof (induction s)
  case Nil
  show ?case by (auto simp: containsText_def)
next
  case (Cons c cs)
  have "containsText (c # cs) t \<longleftrightarrow> take (length t) (c # cs) = t \<or> containsText cs t"
  proof
    assume "containsText (c # cs) t"
    then obtain u v where uv: "c # cs = u @ t @ v" by (auto simp: containsText_def)
    show "take (length t) (c # cs) = t \<or> containsText cs t"
    proof (cases u)
      case Nil
      with uv show ?thesis by simp
    next
      case (Cons a u')
      with uv have "cs = u' @ t @ v" by simp
      then show ?thesis by (auto simp: containsText_def)
    qed
  next
    assume "take (length t) (c # cs) = t \<or> containsText cs t"
    then show "containsText (c # cs) t"
    proof
      assume h: "take (length t) (c # cs) = t"
      have "c # cs = [] @ take (length t) (c # cs) @ drop (length t) (c # cs)"
        by simp
      with h have "c # cs = [] @ t @ drop (length t) (c # cs)" by simp
      then show ?thesis unfolding containsText_def by blast
    next
      assume "containsText cs t"
      then obtain u v where "cs = u @ t @ v" by (auto simp: containsText_def)
      then have "c # cs = (c # u) @ t @ v" by simp
      then show ?thesis unfolding containsText_def by blast
    qed
  qed
  with Cons show ?case by simp
qed

lemma forOpposingPairs_iff:
  "forOpposingPairs ps l1 l2 \<longleftrightarrow>
     (\<exists>(a, b) \<in> set ps. (str_includes l1 a \<and> str_includes l2 b) \<or>
                         (str_includes l1 b \<and> str_includes l2 a))"
  by (induction ps l1 l2 rule: forOpposingPairs.induct) auto

lemma overlap_iff:
  "filter (\<lambda>w. w \<in> set (significantWords (toLowerCase e))) (significantWords (toLowerCase n)) \<noteq> []
   \<longleftrightarrow> contentWords n \<inter> contentWords e \<noteq> {}"
proof -
  have s: "set (significantWords (toLowerCase t)) = contentWords t" for t
    by (auto simp: significantWords_def contentWords_def set_dedupeFirst)
  have "filter (\<lambda>w. w \<in> set (significantWords (toLowerCase e))) (significantWords (toLowerCase n)) \<noteq> []
    \<longleftrightarrow> (\<exists>w \<in> set (significantWords (toLowerCase n)). w \<in> set (significantWords (toLowerCase e)))"
    by (simp add: filter_empty_conv)
  also have "\<dots> \<longleftrightarrow> contentWords n \<inter> contentWords e \<noteq> {}"
    unfolding s by blast
  finally show ?thesis .
qed

text \<open>
  Claim C5. \<open>detectSimpleContradiction(newRule, existingRule, newTemporalMarker)\<close> is
  true exactly when (a) the marker of the new rule is \<open>negated\<close> and the two rule texts
  share a content word (a lower-cased word longer than three characters that is no stop
  word), or (b) for some pair of the fixed table of opposing keywords one text contains
  one member of the pair and the other text contains the other member. Containment is
  tested on the lower-cased texts.
\<close>

theorem detectSimpleContradiction_iff:
  "detectSimpleContradiction newRule existingRule newTemporalMarker \<longleftrightarrow>
     (newTemporalMarker = ''negated'' \<and>
      contentWords newRule \<inter> contentWords existingRule \<noteq> {}) \<or>
     (\<exists>(a, b) \<in> set [(''formal'', ''casual''), (''formal'', ''informal''),
                      (''verbose'', ''concise''), (''detailed'', ''brief''),
                      (''simple'', ''complex''), (''short'', ''long''),
                      (''technical'', ''simple''), (''professional'', ''casual''),
                      (''serious'', ''humorous''), (''passive'', ''active'')].
        (containsText (toLowerCase newRule) a \<and> containsText (toLowerCase existingRule) b) \<or>
        (containsText (toLowerCase newRule) b \<and> containsText (toLowerCase existingRule) a))"
proof -
  have "detectSimpleContradiction newRule existingRule newTemporalMarker \<longleftrightarrow>
     (newTemporalMarker = ''negated'' \<and>
      contentWords newRule \<inter> contentWords existingRule \<noteq> {}) \<or>
     forOpposingPairs opposingPairs (toLowerCase newRule) (toLowerCase existingRule)"
    unfolding detectSimpleContradiction_def Let_def overlap_iff by auto
  then show ?thesis
    unfolding forOpposingPairs_iff str_includes_iff opposingPairs_def .
qed

lemma forMessages_filter: "forMessages (filter humanTurn ms) acc = forMessages ms acc"
proof (induction ms arbitrary: acc)
  case Nil
  show ?case by simp
next
  case (Cons m ms)
  obtain e r s where acc: "acc = (e, r, s)" by (cases acc)
  show ?case unfolding acc using Cons.IH by (simp add: humanTurn_def)
qed

text \<open>
  Claim C7, as amended. Only turns whose role is \<open>human\<close> or \<open>user\<close> contribute to
  the extraction, entity candidates and style-rule candidates alike: the result is the
  one obtained after every other turn has been removed from the input.
\<close>

theorem extractFromMessages_human_only:
  "extractFromMessages params =
   extractFromMessages (params\<lparr>messages := filter humanTurn (messages params)\<rparr>)"
  by (simp add: extractFromMessages_def forMessages_filter)

lemma pushRules_texts:
  "map rule (pushRules ms rules) =
   map rule rules @ filter (\<lambda>t. 10 < length t \<and> length t < 200) (map trim ms)"
  by (induction ms arbitrary: rules) (simp_all add: Let_def)

lemma forPreferencePatterns_texts:
  "map rule (forPreferencePatterns ps t rules) =
   map rule rules @
   filter (\<lambda>t. 10 < length t \<and> length t < 200)
     (concat (map (\<lambda>pattern. map trim (allMatches t pattern)) ps))"
  by (induction ps arbitrary: rules) (simp_all add: pushRules_texts)

lemma forMessages_texts:
  "map rule (fst (snd (forMessages ms (e, r, s)))) =
   map rule r @
   filter (\<lambda>t. 10 < length t \<and> length t < 200)
     (concat (map (\<lambda>m. phraseMatches (content m)) (filter humanTurn ms)))"
proof (induction ms arbitrary: e r s)
  case Nil
  show ?case by simp
next
  case (Cons m ms)
  show ?case
  proof (cases "humanTurn m")
    case True
    then have "\<not> (role m \<noteq> ''human'' \<and> role m \<noteq> ''user'')"
      by (simp add: humanTurn_def)
    then have "forMessages (m # ms) (e, r, s) =
      forMessages ms (forConceptPatterns conceptPatterns (content m) e,
        forPreferencePatterns preferencePatterns (content m) r, s @ [take 200 (content m)])"
      by (simp only: forMessages.simps if_False)
    then show ?thesis using True
      by (simp add: Cons.IH forPreferencePatterns_texts phraseMatches_def)
  next
    case False
    then have "role m \<noteq> ''human'' \<and> role m \<noteq> ''user''"
      by (simp add: humanTurn_def)
    then have "forMessages (m # ms) (e, r, s) = forMessages ms (e, r, s)"
      by simp
    then show ?thesis using False by (simp add: Cons.IH)
  qed
qed

text \<open>
  Claim C8, as amended. A preference-phrase match of a human or user turn is retained as
  a style-rule candidate exactly when its trimmed text is longer than 10 and shorter
  than 200 characters: the rule texts of the result are the trimmed matches of those
  turns, in order, with the texts of at most 10 or at least 200 characters left out.
\<close>

theorem style_rule_retained_iff:
  "map rule (styleRules (extractFromMessages params)) =
   filter (\<lambda>t. 10 < length t \<and> length t < 200)
     (concat (map (\<lambda>m. phraseMatches (content m)) (filter humanTurn (messages params))))"
proof -
  obtain e r s where f: "forMessages (messages params) ([], [], []) = (e, r, s)"
    by (cases "forMessages (messages params) ([], [], [])")
  from forMessages_texts [of "messages params" "[]" "[]" "[]"] f
  show ?thesis by (simp add: extractFromMessages_def)
qed

text \<open>
  Claim C8 as stated fails: the user turn \<open>always abc\<close> has the preference-phrase
  match \<open>always abc\<close>, whose trimmed length is exactly 10, and no style rule is
  extracted from it.
\<close>

theorem ten_character_match_dropped:
  "phraseMatches ''always abc'' = [''always abc''] \<and>
   length ''always abc'' = 10 \<and>
   styleRules (extractFromMessages
     \<lparr>userId = ''u'', sessionId = ''s'', artifactId = None,
      messages = [\<lparr>role = ''user'', content = ''always abc''\<rparr>],
      artifactContent = None\<rparr>) = []"
  by code_simp

text \<open>
  Claim C7 as stated fails: the text \<open>Project Atlas is ready\<close> holds the capitalized
  run \<open>Project Atlas\<close>, which passes the stop-word and length filters, and an assistant
  turn with that text yields no entity.
\<close>

theorem assistant_turn_contributes_nothing:
  "forConceptPatterns conceptPatterns ''Project Atlas is ready'' [] =
     [\<lparr>name = ''project atlas'', entityType = ''Concept''\<rparr>] \<and>
   entities (extractFromMessages
     \<lparr>userId = ''u'', sessionId = ''s'', artifactId = None,
      messages = [\<lparr>role = ''assistant'', content = ''Project Atlas is ready''\<rparr>],
      artifactContent = None\<rparr>) = []"
  by code_simp

section \<open>The property graph store\<close>

text \<open>
  The store is the external collaborator of the write path; what follows is the meaning
  of the Cypher statements the code sends, on a graph of labelled nodes and typed edges
  with properties. A node is identified by its label and the value of its key property
  (\<open>name\<close> for a Concept, \<open>extractionId\<close> for an Extraction, the identifier property
  for the others): every statement of the code creates nodes by \<open>MERGE\<close> on that key and
  the schema declares the key unique, so \<open>nkey\<close> stands for the key property and is not
  repeated in \<open>nprops\<close>. \<open>T n\<close> is a value of \<open>datetime()\<close>, \<open>N n\<close> a number (a
  confidence in hundredths), \<open>M\<close> a map.
\<close>

datatype label = User | Session | Artifact | Concept | StyleRule | Extraction

datatype val = S string | B bool | T nat | N nat | M "(string \<times> string) list"

type_synonym props = "(string \<times> val) list"

record node =
  nlabel :: label
  nkey :: string
  nprops :: props

record edge =
  etype :: string
  esrc :: "label \<times> string"
  edst :: "label \<times> string"
  eprops :: props

record graph =
  nodes :: "node list"
  edges :: "edge list"

definition emptyGraph :: graph where
  "emptyGraph = \<lparr>nodes = [], edges = []\<rparr>"

definition getProp :: "props \<Rightarrow> string \<Rightarrow> val option" where
  "getProp ps k = map_of ps k"

text \<open>\<open>SET x.k = v\<close>: the property is overwritten, or added when absent.\<close>

fun setProp :: "props \<Rightarrow> string \<times> val \<Rightarrow> props" where
  "setProp [] (k, v) = [(k, v)]"
| "setProp ((k', v') # ps) (k, v) =
     (if k' = k then (k, v) # ps else (k', v') # setProp ps (k, v))"

definition setProps :: "props \<Rightarrow> props \<Rightarrow> props" where
  "setProps ps kvs = foldl setProp ps kvs"

definition isNode :: "label \<Rightarrow> string \<Rightarrow> node \<Rightarrow> bool" where
  "isNode l k n \<longleftrightarrow> nlabel n = l \<and> nkey n = k"

definition findNode :: "graph \<Rightarrow> label \<Rightarrow> string \<Rightarrow> node option" where
  "findNode g l k = find (isNode l k) (nodes g)"

definition hasNode :: "graph \<Rightarrow> label \<Rightarrow> string \<Rightarrow> bool" where
  "hasNode g l k \<longleftrightarrow> findNode g l k \<noteq> None"

text \<open>The properties of a node, empty when there is no such node.\<close>

definition nodeProps :: "graph \<Rightarrow> label \<Rightarrow> string \<Rightarrow> props" where
  "nodeProps g l k = (case findNode g l k of None \<Rightarrow> [] | Some n \<Rightarrow> nprops n)"

text \<open>\<open>MATCH (x:L {key: k}) SET x.p = v, ...\<close>: nothing happens when no node matches.\<close>

definition setNode :: "label \<Rightarrow> string \<Rightarrow> props \<Rightarrow> graph \<Rightarrow> graph" where
  "setNode l k kvs g =
     g\<lparr>nodes := map (\<lambda>n. if isNode l k n then n\<lparr>nprops := setProps (nprops n) kvs\<rparr> else n)
                    (nodes g)\<rparr>"

text \<open>
  \<open>MERGE (x:L {key: k}) ON CREATE SET ... ON MATCH SET ...\<close>: the node is created with
  the first properties when no node has the key, and gets the second ones otherwise.
\<close>

definition mergeNode :: "label \<Rightarrow> string \<Rightarrow> props \<Rightarrow> props \<Rightarrow> graph \<Rightarrow> graph" where
  "mergeNode l k onCreate onMatch g =
     (if hasNode g l k then setNode l k onMatch g
      else g\<lparr>nodes := nodes g @ [\<lparr>nlabel = l, nkey = k, nprops = onCreate\<rparr>]\<rparr>)"

text \<open>
  An edge matches the pattern \<open>(a)-[:TYPE {k: v, ...}]->(b)\<close> when it has the type and
  the end points and carries every property of the pattern with the same value.
\<close>

definition edgeMatches ::
  "string \<Rightarrow> label \<times> string \<Rightarrow> label \<times> string \<Rightarrow> props \<Rightarrow> edge \<Rightarrow> bool" where
  "edgeMatches t a b ps e \<longleftrightarrow>
     etype e = t \<and> esrc e = a \<and> edst e = b \<and>
     list_all (\<lambda>kv. getProp (eprops e) (fst kv) = Some (snd kv)) ps"

text \<open>
  \<open>MERGE (a)-[r:TYPE {...}]->(b) ON CREATE SET ... SET ...\<close> between two bound nodes:
  when no edge matches the pattern, one is created with the properties of the pattern
  and of \<open>ON CREATE SET\<close>; the properties of the plain \<open>SET\<close> then go to every edge
  that \<open>r\<close> is bound to.
\<close>

definition mergeEdge ::
  "string \<Rightarrow> label \<times> string \<Rightarrow> label \<times> string \<Rightarrow> props \<Rightarrow> props \<Rightarrow> props \<Rightarrow>
   graph \<Rightarrow> graph" where
  "mergeEdge t a b ps onCreate always g =
     (let es = (if list_ex (edgeMatches t a b ps) (edges g) then edges g
                else edges g @
                     [\<lparr>etype = t, esrc = a, edst = b, eprops = setProps ps onCreate\<rparr>])
      in g\<lparr>edges := map (\<lambda>e. if edgeMatches t a b ps e
                               then e\<lparr>eprops := setProps (eprops e) always\<rparr> else e) es\<rparr>)"

text \<open>A parameter that is \<open>null\<close> sets no property.\<close>

definition optProp :: "string \<Rightarrow> string option \<Rightarrow> props" where
  "optProp k v = (case v of None \<Rightarrow> [] | Some s \<Rightarrow> if s = [] then [] else [(k, S s)])"

text \<open>\<open>if (x)\<close> on an optional string: \<open>undefined\<close> and the empty string are falsy.\<close>

definition truthy :: "string option \<Rightarrow> bool" where
  "truthy v \<longleftrightarrow> (case v of None \<Rightarrow> False | Some s \<Rightarrow> s \<noteq> [])"

section \<open>The graph client (\<open>graphdb.ts\<close>)\<close>

datatype GraphRAGMode = OFF | OPTIONAL | REQUIRED

text \<open>
  The environment of the process: the variable \<open>GRAPHRAG_MODE\<close> (empty when unset),
  the variable \<open>GRAPHRAG_CONTRADICTION_STRATEGY\<close>, the values \<open>randomUUID()\<close> returns
  in order, and the health of the store: \<open>fails n\<close> tells whether the store contact
  number \<open>n\<close> of the process (a connectivity check or a \<open>session.run\<close>) fails.
\<close>

record env =
  GRAPHRAG_MODE :: string
  GRAPHRAG_CONTRADICTION_STRATEGY :: string
  randomUUID :: "nat \<Rightarrow> string"
  fails :: "nat \<Rightarrow> bool"

text \<open>
  The state of the process and of the store: whether \<open>_driver\<close> holds a driver, the
  flags of the two client modules, the graph, the number of store contacts made so far,
  the clock that \<open>datetime()\<close> reads (it advances with every statement run), and the
  number of identifiers drawn from \<open>randomUUID\<close>.
\<close>

record world =
  driver :: bool
  driverInitAttempted :: bool
  schemaInitialized :: bool
  store :: graph
  calls :: nat
  clock :: nat
  uuids :: nat

definition freshWorld :: "graph \<Rightarrow> world" where
  "freshWorld g = \<lparr>driver = False, driverInitAttempted = False, schemaInitialized = False,
     store = g, calls = 0, clock = 0, uuids = 0\<rparr>"

text \<open>
  An exception: the failure of a store contact, a \<open>TypeError\<close>, or
  \<open>new Error(`prefix: ${error}`)\<close> around another one.
\<close>

datatype exn = StoreError nat | TypeError | Wrapped string exn

text \<open>An \<open>async\<close> function: it returns a value or throws, and changes the world.\<close>

type_synonym 'a io = "world \<Rightarrow> (exn + 'a) \<times> world"

definition returnIO :: "'a \<Rightarrow> 'a io" where
  "returnIO x = (\<lambda>w. (Inr x, w))"

definition bindIO :: "'a io \<Rightarrow> ('a \<Rightarrow> 'b io) \<Rightarrow> 'b io" where
  "bindIO m f = (\<lambda>w. case m w of (Inl e, w') \<Rightarrow> (Inl e, w') | (Inr x, w') \<Rightarrow> f x w')"

text \<open>\<open>for (const x of xs) { await f(x); }\<close>\<close>

fun forEach :: "('a \<Rightarrow> unit io) \<Rightarrow> 'a list \<Rightarrow> unit io" where
  "forEach f [] = returnIO ()"
| "forEach f (x # xs) = bindIO (f x) (\<lambda>_. forEach f xs)"

definition toUpperChar :: "char \<Rightarrow> char" where
  "toUpperChar c = (if isLowerAZ c then char_of ((of_char c :: nat) - 32) else c)"

definition getGraphRAGMode :: "env \<Rightarrow> GraphRAGMode" where
  "getGraphRAGMode ev =
     (let mode = map toUpperChar (if GRAPHRAG_MODE ev = [] then ''OFF'' else GRAPHRAG_MODE ev)
      in if mode = ''OPTIONAL'' then OPTIONAL
         else if mode = ''REQUIRED'' then REQUIRED
         else OFF)"

text \<open>
  \<open>getDriver\<close> returns the driver or \<open>null\<close>: the result is \<open>True\<close> for a driver. The
  first call outside the mode OFF sets \<open>_driverInitAttempted\<close> and contacts the store
  once (\<open>verifyConnectivity\<close>).
\<close>

definition getDriver :: "env \<Rightarrow> bool io" where
  "getDriver ev w =
     (let mode = getGraphRAGMode ev in
      if mode = OFF then (Inr False, w)
      else if driverInitAttempted w then (Inr (driver w), w)
      else if fails ev (calls w)
      then (let w' = w\<lparr>driverInitAttempted := True, driver := False, calls := Suc (calls w)\<rparr>
            in if mode = REQUIRED
               then (Inl (Wrapped ''[GraphRAG] REQUIRED mode: Neo4j connection failed''
                            (StoreError (calls w))), w')
               else (Inr False, w'))
      else (Inr True, w\<lparr>driverInitAttempted := True, driver := True, calls := Suc (calls w)\<rparr>))"

text \<open>
  A statement with its parameters bound: given the value of \<open>datetime()\<close> and the graph
  it returns its records and the graph it leaves. A statement that fails leaves the graph
  as it was.
\<close>

type_synonym 'r statement = "nat \<Rightarrow> graph \<Rightarrow> 'r list \<times> graph"

text \<open>
  \<open>session.run\<close> inside \<open>try\<close>/\<open>catch\<close>, as \<open>runQuery\<close> and \<open>runWriteQuery\<close> have it;
  \<open>label\<close> is the prefix of the error thrown in the mode REQUIRED. The result \<open>None\<close>
  is \<open>null\<close>.
\<close>

definition sessionRun :: "env \<Rightarrow> string \<Rightarrow> 'r statement \<Rightarrow> ('r list option) io" where
  "sessionRun ev label stmt w =
     (if fails ev (calls w)
      then (let w' = w\<lparr>calls := Suc (calls w), clock := Suc (clock w)\<rparr>
            in if getGraphRAGMode ev = REQUIRED
               then (Inl (Wrapped label (StoreError (calls w))), w')
               else (Inr None, w'))
      else (case stmt (clock w) (store w) of
              (rows, g) \<Rightarrow>
                (Inr (Some rows),
                 w\<lparr>store := g, calls := Suc (calls w), clock := Suc (clock w)\<rparr>)))"

definition runQuery :: "env \<Rightarrow> 'r statement \<Rightarrow> ('r list option) io" where
  "runQuery ev stmt =
     bindIO (getDriver ev)
       (\<lambda>d. if \<not> d then returnIO None else sessionRun ev ''[GraphRAG] Query failed'' stmt)"

definition runWriteQuery :: "env \<Rightarrow> 'r statement \<Rightarrow> ('r list option) io" where
  "runWriteQuery ev stmt =
     bindIO (getDriver ev)
       (\<lambda>d. if \<not> d then returnIO None
            else sessionRun ev ''[GraphRAG] Write query failed'' stmt)"

definition closeDriver :: "world \<Rightarrow> world" where
  "closeDriver w = (if driver w then w\<lparr>driver := False, driverInitAttempted := False\<rparr> else w)"

section \<open>The write path with caller-supplied identifiers (\<open>writeToGraph\<close>)\<close>

text \<open>
  The repository holds two write paths. This section is the one of \<open>writeToGraph\<close>,
  which receives the extraction identifier and the rule identifiers from its caller and
  goes through \<open>runWriteQuery\<close>. Its input types share field names with the types of
  the extractor, so the fields of \<open>WritePathInput\<close> carry the prefix \<open>in_\<close>, those of
  its style rules (the interface \<open>ExtractedStyleRule\<close> of this module, \<open>WriteStyleRule\<close>
  here) the prefix \<open>sr_\<close>; the fields \<open>method\<close> and \<open>rawSnippet\<close> of an
  \<open>ExtractionRecord\<close> are \<open>extractionMethod\<close> and \<open>snippet\<close>.
\<close>

record ExtractionRecord =
  extractionId :: string
  createdAt :: string
  extractionMethod :: string
  model :: "string option"
  snippet :: "string option"
  sourceSpan :: "(nat \<times> nat) option"

record ExtractedTriple =
  subject :: string
  predicate :: string
  object :: string
  properties :: "(string \<times> string) list option"

record WriteStyleRule =
  sr_id :: string
  sr_category :: string
  sr_content :: string
  sr_scope :: string
  sr_temporalMarker :: string

record WritePathInput =
  in_userId :: string
  in_sessionId :: "string option"
  in_artifactId :: "string option"
  in_entities :: "string list"
  in_triples :: "ExtractedTriple list"
  in_styleRules :: "WriteStyleRule list"
  in_extraction :: ExtractionRecord

text \<open>
  The statement of \<open>createExtractionNode\<close>: \<open>MERGE\<close> of the Extraction node, then, when
  a session or an artifact is given, \<open>MERGE\<close> of that node and of the edge to it.
\<close>

definition createExtractionCypher ::
  "ExtractionRecord \<Rightarrow> string option \<Rightarrow> string option \<Rightarrow> unit statement" where
  "createExtractionCypher ex sid aid now g =
     (let e = (Extraction, extractionId ex);
          g1 = mergeNode Extraction (extractionId ex)
                 ([(''createdAt'', S (createdAt ex)), (''method'', S (extractionMethod ex))] @
                  optProp ''model'' (model ex) @ optProp ''rawSnippet'' (snippet ex)) [] g;
          g2 = (case sid of
                  Some s \<Rightarrow>
                    if s = [] then g1
                    else mergeEdge ''EXTRACTED_FROM'' e (Session, s) [] [] []
                           (mergeNode Session s [] [] g1)
                | None \<Rightarrow> g1);
          g3 = (case aid of
                  Some a \<Rightarrow>
                    if a = [] then g2
                    else mergeEdge ''EXTRACTED_FROM_ARTIFACT'' e (Artifact, a) [] [] []
                           (mergeNode Artifact a [] [] g2)
                | None \<Rightarrow> g2)
      in ([], g3))"

definition createExtractionNode ::
  "env \<Rightarrow> ExtractionRecord \<Rightarrow> string option \<Rightarrow> string option \<Rightarrow> unit io" where
  "createExtractionNode ev ex sid aid =
     bindIO (runWriteQuery ev (createExtractionCypher ex sid aid)) (\<lambda>_. returnIO ())"

text \<open>
  \<open>MERGE (c:Concept {name}) ... WITH c MATCH (e:Extraction {extractionId})
  MERGE (e)-[:CREATED]->(c)\<close>: the edge is merged when the Extraction node is found.
\<close>

definition upsertConceptCypher :: "string \<Rightarrow> string \<Rightarrow> unit statement" where
  "upsertConceptCypher nm eid now g =
     (let g1 = mergeNode Concept nm [(''createdAt'', T now), (''updatedAt'', T now)]
                 [(''updatedAt'', T now)] g
      in ([], if hasNode g1 Extraction eid
              then mergeEdge ''CREATED'' (Extraction, eid) (Concept, nm) [] [] [] g1
              else g1))"

definition upsertConcept :: "env \<Rightarrow> string \<Rightarrow> string \<Rightarrow> unit io" where
  "upsertConcept ev nm eid =
     bindIO (runWriteQuery ev (upsertConceptCypher (toLowerCase nm) eid)) (\<lambda>_. returnIO ())"

text \<open>
  \<open>MERGE (s) MERGE (o) MERGE (s)-[r:RELATED_TO {predicate}]->(o) ON CREATE SET
  r.createdAt SET r.properties WITH r MATCH (e:Extraction) MERGE (e)-[:ASSERTED]->(s)\<close>.
\<close>

definition upsertRelationCypher ::
  "string \<Rightarrow> string \<Rightarrow> string \<Rightarrow> (string \<times> string) list \<Rightarrow> string \<Rightarrow> unit statement" where
  "upsertRelationCypher sub pre ob prs eid now g =
     (let g1 = mergeNode Concept sub [(''createdAt'', T now), (''updatedAt'', T now)] [] g;
          g2 = mergeNode Concept ob [(''createdAt'', T now), (''updatedAt'', T now)] [] g1;
          g3 = mergeEdge ''RELATED_TO'' (Concept, sub) (Concept, ob) [(''predicate'', S pre)]
                 [(''createdAt'', T now)] [(''properties'', M prs)] g2
      in ([], if hasNode g3 Extraction eid
              then mergeEdge ''ASSERTED'' (Extraction, eid) (Concept, sub) [] [] [] g3
              else g3))"

definition upsertRelation :: "env \<Rightarrow> ExtractedTriple \<Rightarrow> string \<Rightarrow> unit io" where
  "upsertRelation ev triple eid =
     bindIO (runWriteQuery ev
               (upsertRelationCypher (toLowerCase (subject triple)) (predicate triple)
                  (toLowerCase (object triple))
                  (case properties triple of None \<Rightarrow> [] | Some prs \<Rightarrow> prs) eid))
       (\<lambda>_. returnIO ())"

text \<open>
  The contradiction check of \<open>upsertStyleRule\<close>: one record for every \<open>PREFERS\<close> edge
  from the user to a StyleRule of the category and scope of the candidate whose marker
  is \<open>current\<close> and whose identifier differs from the candidate's; \<open>LIMIT 5\<close> keeps
  five of them (the store does not say which: the model keeps the first five in edge
  order). A record is the pair of \<open>existingId\<close> and \<open>existingContent\<close>.
\<close>

definition contradictionCheck ::
  "string \<Rightarrow> WriteStyleRule \<Rightarrow> (string \<times> val option) statement" where
  "contradictionCheck uid r now g =
     (take 5
        (map (\<lambda>e. (snd (edst e), getProp (nodeProps g StyleRule (snd (edst e))) ''content''))
           (filter (\<lambda>e. etype e = ''PREFERS'' \<and> esrc e = (User, uid) \<and>
                         fst (edst e) = StyleRule \<and>
                         getProp (nodeProps g StyleRule (snd (edst e))) ''category'' =
                           Some (S (sr_category r)) \<and>
                         getProp (nodeProps g StyleRule (snd (edst e))) ''scope'' =
                           Some (S (sr_scope r)) \<and>
                         getProp (nodeProps g StyleRule (snd (edst e))) ''temporalMarker'' =
                           Some (S ''current'') \<and>
                         snd (edst e) \<noteq> sr_id r)
              (edges g))),
      g)"

text \<open>
  The upsert of the rule: \<open>MERGE (r:StyleRule {id})\<close>, then \<open>MATCH (u:User {id})\<close>,
  which ends the statement when there is no such user, then the \<open>PREFERS\<close> edge, whose
  pattern holds \<open>since: datetime()\<close>, then \<open>MATCH (e:Extraction)\<close> and the \<open>CREATED\<close>
  edge.
\<close>

definition upsertStyleRuleCypher ::
  "string \<Rightarrow> WriteStyleRule \<Rightarrow> string \<Rightarrow> unit statement" where
  "upsertStyleRuleCypher uid r eid now g =
     (let g1 = mergeNode StyleRule (sr_id r)
                 [(''category'', S (sr_category r)), (''content'', S (sr_content r)),
                  (''scope'', S (sr_scope r)), (''temporalMarker'', S (sr_temporalMarker r)),
                  (''since'', T now), (''createdAt'', T now)]
                 [(''content'', S (sr_content r)),
                  (''temporalMarker'', S (sr_temporalMarker r)), (''updatedAt'', T now)] g
      in if \<not> hasNode g1 User uid then ([], g1)
         else (let g2 = mergeEdge ''PREFERS'' (User, uid) (StyleRule, sr_id r)
                          [(''since'', T now), (''scope'', S (sr_scope r)),
                           (''temporalMarker'', S (sr_temporalMarker r))] [] [] g1
               in if \<not> hasNode g2 Extraction eid then ([], g2)
                  else ([], mergeEdge ''CREATED'' (Extraction, eid) (StyleRule, sr_id r)
                              [] [] [] g2)))"

definition contradictCypher :: "string \<Rightarrow> string \<Rightarrow> string \<Rightarrow> unit statement" where
  "contradictCypher newRuleId existingId eid now g =
     ([], if hasNode g StyleRule newRuleId \<and> hasNode g StyleRule existingId
          then mergeEdge ''CONTRADICTS'' (StyleRule, newRuleId) (StyleRule, existingId)
                 [(''reason'', S ''Same category and scope, newer rule''),
                  (''createdAt'', T now), (''extractionId'', S eid)] [] [] g
          else g)"

definition upsertStyleRule :: "env \<Rightarrow> string \<Rightarrow> WriteStyleRule \<Rightarrow> string \<Rightarrow> unit io" where
  "upsertStyleRule ev uid r eid =
     bindIO (runWriteQuery ev (contradictionCheck uid r))
       (\<lambda>existingRules.
          bindIO (runWriteQuery ev (upsertStyleRuleCypher uid r eid))
            (\<lambda>_. case existingRules of
                    None \<Rightarrow> returnIO ()
                  | Some rows \<Rightarrow>
                      forEach (\<lambda>existing.
                                 bindIO (runWriteQuery ev
                                           (contradictCypher (sr_id r) (fst existing) eid))
                                   (\<lambda>_. returnIO ()))
                        rows))"

text \<open>
  \<open>writeToGraph\<close>: nothing in the mode OFF; otherwise the four steps inside \<open>try\<close>, the
  result \<open>true\<close> when none of them throws, and in \<open>catch\<close> a new error in the mode
  REQUIRED and \<open>false\<close> otherwise.
\<close>

definition writeToGraph :: "env \<Rightarrow> WritePathInput \<Rightarrow> bool io" where
  "writeToGraph ev inp w =
     (let mode = getGraphRAGMode ev;
          eid = extractionId (in_extraction inp)
      in if mode = OFF then (Inr False, w)
         else (case bindIO (createExtractionNode ev (in_extraction inp) (in_sessionId inp)
                              (in_artifactId inp))
                      (\<lambda>_. bindIO (forEach (\<lambda>entity. upsertConcept ev entity eid)
                                     (in_entities inp))
                      (\<lambda>_. bindIO (forEach (\<lambda>triple. upsertRelation ev triple eid)
                                     (in_triples inp))
                      (\<lambda>_. forEach (\<lambda>r. upsertStyleRule ev (in_userId inp) r eid)
                             (in_styleRules inp)))) w of
                 (Inr _, w') \<Rightarrow> (Inr True, w')
               | (Inl error, w') \<Rightarrow>
                   if mode = REQUIRED
                   then (Inl (Wrapped ''[GraphRAG] Write path failed'' error), w')
                   else (Inr False, w')))"

text \<open>
  Sample data. \<open>seededGraph\<close> is the graph after the last of the schema statements
  (\<open>MERGE (u:User {id: "00000000-0000-0000-0000-000000000001"}) ON CREATE SET ...\<close>),
  the only statement of this write path's modules that creates a User node.
\<close>

definition procEnv :: "string \<Rightarrow> (nat \<Rightarrow> bool) \<Rightarrow> env" where
  "procEnv mode f =
     \<lparr>GRAPHRAG_MODE = mode, GRAPHRAG_CONTRADICTION_STRATEGY = [],
      randomUUID = (\<lambda>n. ''uuid-'' @ replicate n CHR ''i''), fails = f\<rparr>"

definition localUser :: string where
  "localUser = ''00000000-0000-0000-0000-000000000001''"

definition seededGraph :: graph where
  "seededGraph =
     mergeNode User localUser [(''username'', S ''local-user''), (''createdAt'', T 0)] []
       emptyGraph"

definition sampleExtraction :: ExtractionRecord where
  "sampleExtraction =
     \<lparr>extractionId = ''x1'', createdAt = ''2026-01-01T00:00:00Z'', extractionMethod = ''rule'',
      model = None, snippet = None, sourceSpan = None\<rparr>"

definition briefRule :: WriteStyleRule where
  "briefRule =
     \<lparr>sr_id = ''r1'', sr_category = ''tone'', sr_content = ''be brief'',
      sr_scope = ''global'', sr_temporalMarker = ''current''\<rparr>"

definition sampleInput :: "string \<Rightarrow> WritePathInput" where
  "sampleInput uid =
     \<lparr>in_userId = uid, in_sessionId = Some ''s1'', in_artifactId = None,
      in_entities = [''Alpha''],
      in_triples = [],
      in_styleRules = [briefRule],
      in_extraction = sampleExtraction\<rparr>"

definition tripleInput :: WritePathInput where
  "tripleInput =
     \<lparr>in_userId = localUser, in_sessionId = None, in_artifactId = None,
      in_entities = [],
      in_triples = [\<lparr>subject = ''Alpha'', predicate = ''uses'', object = ''Beta'',
                     properties = None\<rparr>],
      in_styleRules = [],
      in_extraction = sampleExtraction\<rparr>"

text \<open>
  The provenance pointers of a node: the \<open>CREATED\<close> and \<open>ASSERTED\<close> edges from an
  Extraction node to it. \<open>contradictsCount\<close> counts the \<open>CONTRADICTS\<close> edges.
\<close>

definition provenance :: "graph \<Rightarrow> label \<times> string \<Rightarrow> edge list" where
  "provenance g x =
     filter (\<lambda>e. (etype e = ''CREATED'' \<or> etype e = ''ASSERTED'') \<and>
                  fst (esrc e) = Extraction \<and> edst e = x) (edges g)"

definition contradictsCount :: "graph \<Rightarrow> nat" where
  "contradictsCount g = length (filter (\<lambda>e. etype e = ''CONTRADICTS'') (edges g))"

text \<open>
  The operations of the graph client, to speak of every sequence of later calls, and
  the answer \<open>null\<close> of each.
\<close>

datatype 'r clientOp =
  OpGetDriver | OpRunQuery "'r statement" | OpRunWriteQuery "'r statement" | OpCloseDriver

datatype 'r opResult = Driver bool | Records "'r list option" | Thrown exn | Closed

fun doOp :: "env \<Rightarrow> 'r clientOp \<Rightarrow> world \<Rightarrow> 'r opResult \<times> world" where
  "doOp ev OpGetDriver w =
     (case getDriver ev w of (Inl e, w') \<Rightarrow> (Thrown e, w') | (Inr d, w') \<Rightarrow> (Driver d, w'))"
| "doOp ev (OpRunQuery stmt) w =
     (case runQuery ev stmt w of
        (Inl e, w') \<Rightarrow> (Thrown e, w') | (Inr rs, w') \<Rightarrow> (Records rs, w'))"
| "doOp ev (OpRunWriteQuery stmt) w =
     (case runWriteQuery ev stmt w of
        (Inl e, w') \<Rightarrow> (Thrown e, w') | (Inr rs, w') \<Rightarrow> (Records rs, w'))"
| "doOp ev OpCloseDriver w = (Closed, closeDriver w)"

fun doOps :: "env \<Rightarrow> 'r clientOp list \<Rightarrow> world \<Rightarrow> 'r opResult list \<times> world" where
  "doOps ev [] w = ([], w)"
| "doOps ev (x # xs) w =
     (case doOp ev x w of (r, w') \<Rightarrow> (case doOps ev xs w' of (rs, w'') \<Rightarrow> (r # rs, w'')))"

fun nullAnswer :: "'r clientOp \<Rightarrow> 'r opResult" where
  "nullAnswer OpGetDriver = Driver False"
| "nullAnswer (OpRunQuery stmt) = Records None"
| "nullAnswer (OpRunWriteQuery stmt) = Records None"
| "nullAnswer OpCloseDriver = Closed"

section \<open>Properties of the graph client and of \<open>writeToGraph\<close>\<close>

lemma getDriver_after_failed_attempt:
  assumes "getGraphRAGMode ev \<noteq> OFF" "driverInitAttempted w" "\<not> driver w"
  shows "getDriver ev w = (Inr False, w)"
  using assms by (simp add: getDriver_def Let_def)

lemma doOp_after_failed_attempt:
  assumes "getGraphRAGMode ev \<noteq> OFF" "driverInitAttempted w" "\<not> driver w"
  shows "doOp ev x w = (nullAnswer x, w)"
proof (cases x)
  case OpGetDriver
  then show ?thesis by (simp add: getDriver_after_failed_attempt [OF assms])
next
  case (OpRunQuery stmt)
  then show ?thesis
    by (simp add: runQuery_def bindIO_def returnIO_def getDriver_after_failed_attempt [OF assms])
next
  case (OpRunWriteQuery stmt)
  then show ?thesis
    by (simp add: runWriteQuery_def bindIO_def returnIO_def
        getDriver_after_failed_attempt [OF assms])
next
  case OpCloseDriver
  then show ?thesis using assms by (simp add: closeDriver_def)
qed

lemma doOps_after_failed_attempt:
  assumes "getGraphRAGMode ev \<noteq> OFF" "driverInitAttempted w" "\<not> driver w"
  shows "doOps ev xs w = (map nullAnswer xs, w)"
  by (induction xs) (simp_all add: doOp_after_failed_attempt [OF assms])

text \<open>
  Claim C9, as amended. Once the first connection attempt has failed in the mode
  OPTIONAL, \<open>getDriver\<close> never retries: it has answered \<open>null\<close> after one store
  contact, and in the state it leaves every later call of the graph client, in any
  order and number, answers \<open>null\<close> (\<open>getDriver\<close>, \<open>runQuery\<close>, \<open>runWriteQuery\<close>)
  without contacting the store and without changing the state. \<open>closeDriver\<close> is among
  those calls: it resets the initialization flag only while a driver is held, so after a
  failed attempt it changes nothing.
\<close>

theorem no_retry_after_failed_connection:
  assumes "getGraphRAGMode ev = OPTIONAL" "\<not> driverInitAttempted w" "fails ev (calls w)"
  shows "fst (getDriver ev w) = Inr False \<and>
         calls (snd (getDriver ev w)) = Suc (calls w) \<and>
         doOps ev ops (snd (getDriver ev w)) = (map nullAnswer ops, snd (getDriver ev w))"
proof -
  let ?w1 = "w\<lparr>driverInitAttempted := True, driver := False, calls := Suc (calls w)\<rparr>"
  have g: "getDriver ev w = (Inr False, ?w1)"
    using assms by (simp add: getDriver_def Let_def)
  have "doOps ev ops ?w1 = (map nullAnswer ops, ?w1)"
    by (rule doOps_after_failed_attempt) (simp_all add: assms(1))
  with g show ?thesis by simp
qed

theorem no_retry_after_failed_connection_witness:
  "getGraphRAGMode (procEnv ''OPTIONAL'' (\<lambda>n. n = 0)) = OPTIONAL \<and>
   \<not> driverInitAttempted (freshWorld seededGraph) \<and>
   fails (procEnv ''OPTIONAL'' (\<lambda>n. n = 0)) (calls (freshWorld seededGraph)) \<and>
   fst (getDriver (procEnv ''OPTIONAL'' (\<lambda>n. n = 0)) (freshWorld seededGraph)) = Inr False \<and>
   fst (doOps (procEnv ''OPTIONAL'' (\<lambda>n. n = 0))
          [OpCloseDriver, OpGetDriver,
           OpRunWriteQuery (upsertConceptCypher ''alpha'' ''x1''),
           OpRunQuery (upsertConceptCypher ''beta'' ''x1'')]
          (snd (getDriver (procEnv ''OPTIONAL'' (\<lambda>n. n = 0)) (freshWorld seededGraph)))) =
     [Closed, Driver False, Records None, Records None]"
proof -
  have h: "getGraphRAGMode (procEnv ''OPTIONAL'' (\<lambda>n. n = 0)) = OPTIONAL"
    by code_simp
  have a: "\<not> driverInitAttempted (freshWorld seededGraph)"
    by (simp add: freshWorld_def)
  have f: "fails (procEnv ''OPTIONAL'' (\<lambda>n. n = 0)) (calls (freshWorld seededGraph))"
    by (simp add: procEnv_def freshWorld_def)
  from no_retry_after_failed_connection [OF h a f,
      of "[OpCloseDriver, OpGetDriver,
           OpRunWriteQuery (upsertConceptCypher ''alpha'' ''x1''),
           OpRunQuery (upsertConceptCypher ''beta'' ''x1'')]"] h a f
  show ?thesis by simp
qed

text \<open>
  The parts of the mode contract that hold for every input: the mode OFF issues no
  store call and answers \<open>null\<close> and \<open>false\<close>; in the mode REQUIRED a write whose
  first connection attempt fails throws.
\<close>

lemma off_mode_is_silent:
  assumes "getGraphRAGMode ev = OFF"
  shows "getDriver ev w = (Inr False, w)"
    and "runQuery ev stmt w = (Inr None, w)"
    and "runWriteQuery ev stmt w = (Inr None, w)"
    and "writeToGraph ev inp w = (Inr False, w)"
  using assms
  by (simp_all add: getDriver_def runQuery_def runWriteQuery_def writeToGraph_def bindIO_def
      returnIO_def Let_def)

lemma required_write_throws:
  assumes "getGraphRAGMode ev = REQUIRED" "\<not> driverInitAttempted w" "fails ev (calls w)"
  shows "\<exists>e. fst (writeToGraph ev inp w) = Inl e"
proof -
  have "\<exists>e w'. getDriver ev w = (Inl e, w')"
    using assms by (simp add: getDriver_def Let_def)
  then obtain e w' where g: "getDriver ev w = (Inl e, w')" by blast
  then have "createExtractionNode ev ex sid aid w = (Inl e, w')" for ex sid aid
    by (simp add: createExtractionNode_def runWriteQuery_def bindIO_def)
  then show ?thesis
    using assms(1) by (simp add: writeToGraph_def bindIO_def Let_def)
qed

lemma etype_after_set:
  "((\<lambda>e. etype e = x) \<circ> (\<lambda>e. if c e then e\<lparr>eprops := h e\<rparr> else e)) = (\<lambda>e. etype e = x)"
  by (rule ext) simp

lemma contradictsCount_mergeNode [simp]:
  "contradictsCount (mergeNode l k c m g) = contradictsCount g"
  by (simp add: contradictsCount_def mergeNode_def setNode_def)

lemma contradictsCount_mergeEdge_other:
  assumes "t \<noteq> ''CONTRADICTS''"
  shows "contradictsCount (mergeEdge t a b ps c al g) = contradictsCount g"
  using assms by (simp add: contradictsCount_def mergeEdge_def Let_def etype_after_set)

lemma contradictsCount_mergeEdge_le:
  "contradictsCount (mergeEdge t a b ps c al g) \<le> Suc (contradictsCount g)"
  by (simp add: contradictsCount_def mergeEdge_def Let_def etype_after_set)

lemma contradictsCount_upsertStyleRuleCypher:
  "contradictsCount (snd (upsertStyleRuleCypher uid r eid now g)) = contradictsCount g"
  by (simp add: upsertStyleRuleCypher_def Let_def contradictsCount_mergeEdge_other)

lemma contradictsCount_contradictCypher:
  "contradictsCount (snd (contradictCypher n x eid now g)) \<le> Suc (contradictsCount g)"
  by (simp add: contradictCypher_def contradictsCount_mergeEdge_le)

lemma contradictionCheck_graph: "snd (contradictionCheck uid r now g) = g"
  by (simp add: contradictionCheck_def)

text \<open>What a statement does to the count bounds what \<open>runWriteQuery\<close> does to it.\<close>

lemma runWriteQuery_count:
  assumes "\<And>now g. contradictsCount (snd (stmt now g)) \<le> contradictsCount g + k"
  shows "contradictsCount (store (snd (runWriteQuery ev stmt w))) \<le> contradictsCount (store w) + k"
proof -
  have d: "store (snd (getDriver ev w)) = store w"
    by (simp add: getDriver_def Let_def)
  have s: "contradictsCount (store (snd (sessionRun ev l stmt w'))) \<le> contradictsCount (store w') + k"
    for l w'
    using assms [of "clock w'" "store w'"]
    by (cases "stmt (clock w') (store w')") (simp add: sessionRun_def Let_def)
  show ?thesis
  proof (cases "getDriver ev w")
    case (Pair res w')
    with d have w': "store w' = store w" by simp
    show ?thesis
    proof (cases res)
      case (Inl e)
      with Pair w' show ?thesis by (simp add: runWriteQuery_def bindIO_def)
    next
      case (Inr b)
      with Pair w' s [of "''[GraphRAG] Write query failed''" w'] show ?thesis
        by (simp add: runWriteQuery_def bindIO_def returnIO_def)
    qed
  qed
qed

lemma runWriteQuery_rows:
  assumes "fst (runWriteQuery ev stmt w) = Inr (Some rows)"
  shows "\<exists>now g. rows = fst (stmt now g)"
proof (cases "getDriver ev w")
  case (Pair res w')
  show ?thesis
  proof (cases res)
    case (Inl e)
    with Pair assms show ?thesis by (simp add: runWriteQuery_def bindIO_def)
  next
    case (Inr b)
    show ?thesis
    proof (cases b)
      case False
      with Pair Inr assms show ?thesis by (simp add: runWriteQuery_def bindIO_def returnIO_def)
    next
      case True
      with Pair Inr assms
      have "fst (sessionRun ev ''[GraphRAG] Write query failed'' stmt w') = Inr (Some rows)"
        by (simp add: runWriteQuery_def bindIO_def)
      then have "rows = fst (stmt (clock w') (store w'))"
        by (cases "stmt (clock w') (store w')")
           (simp add: sessionRun_def Let_def split: if_splits)
      then show ?thesis by blast
    qed
  qed
qed

lemma forEach_count:
  assumes "\<And>x w. contradictsCount (store (snd (f x w))) \<le> Suc (contradictsCount (store w))"
  shows "contradictsCount (store (snd (forEach f xs w))) \<le> contradictsCount (store w) + length xs"
proof (induction xs arbitrary: w)
  case Nil
  show ?case by (simp add: returnIO_def)
next
  case (Cons x xs)
  show ?case
  proof (cases "f x w")
    case (Pair res w')
    from assms [of x w] Pair
    have le: "contradictsCount (store w') \<le> Suc (contradictsCount (store w))" by simp
    show ?thesis
    proof (cases res)
      case (Inl e)
      with Pair le show ?thesis by (simp add: bindIO_def)
    next
      case (Inr u)
      with Pair have "forEach f (x # xs) w = forEach f xs w'" by (simp add: bindIO_def)
      with Cons.IH [of w'] le show ?thesis by simp
    qed
  qed
qed

lemma bindIO_return_count:
  "store (snd (bindIO m (\<lambda>_. returnIO ()) w)) = store (snd (m w))"
  by (cases "m w"; cases "fst (m w)") (simp_all add: bindIO_def returnIO_def)

lemma contradictionCheck_length: "length (fst (contradictionCheck uid r now g)) \<le> 5"
  by (simp add: contradictionCheck_def)

lemma upsertStyleRule_count:
  "contradictsCount (store (snd (upsertStyleRule ev uid r eid w))) \<le> contradictsCount (store w) + 5"
proof (cases "runWriteQuery ev (contradictionCheck uid r) w")
  case (Pair res1 w1)
  have c1: "contradictsCount (store w1) \<le> contradictsCount (store w)"
    using runWriteQuery_count [of "contradictionCheck uid r" 0 ev w] Pair
    by (simp add: contradictionCheck_graph)
  show ?thesis
  proof (cases res1)
    case (Inl e)
    with Pair c1 show ?thesis by (simp add: upsertStyleRule_def bindIO_def)
  next
    case (Inr existingRules)
    obtain res2 w2 where q2: "runWriteQuery ev (upsertStyleRuleCypher uid r eid) w1 = (res2, w2)"
      by (cases "runWriteQuery ev (upsertStyleRuleCypher uid r eid) w1")
    have c2: "contradictsCount (store w2) \<le> contradictsCount (store w1)"
      using runWriteQuery_count [of "upsertStyleRuleCypher uid r eid" 0 ev w1] q2
      by (simp add: contradictsCount_upsertStyleRuleCypher)
    show ?thesis
    proof (cases res2)
      case (Inl e)
      with Pair Inr q2 c1 c2 show ?thesis by (simp add: upsertStyleRule_def bindIO_def)
    next
      case (Inr u)
      show ?thesis
      proof (cases existingRules)
        case None
        with Pair \<open>res1 = Inr existingRules\<close> q2 Inr c1 c2 show ?thesis
          by (simp add: upsertStyleRule_def bindIO_def returnIO_def)
      next
        case (Some rows)
        from Pair \<open>res1 = Inr existingRules\<close> Some
        have "fst (runWriteQuery ev (contradictionCheck uid r) w) = Inr (Some rows)" by simp
        from runWriteQuery_rows [OF this] have len: "length rows \<le> 5"
          by (auto simp: contradictionCheck_length)
        let ?f = "\<lambda>existing. bindIO (runWriteQuery ev
                     (contradictCypher (sr_id r) (fst existing) eid)) (\<lambda>_. returnIO ())"
        have step: "contradictsCount (store (snd (?f x w'))) \<le> Suc (contradictsCount (store w'))"
          for x w'
          using runWriteQuery_count [of "contradictCypher (sr_id r) (fst x) eid" 1 ev w']
          by (simp add: bindIO_return_count contradictsCount_contradictCypher)
        have "contradictsCount (store (snd (forEach ?f rows w2))) \<le>
              contradictsCount (store w2) + length rows"
          by (rule forEach_count) (rule step)
        moreover have "upsertStyleRule ev uid r eid w = forEach ?f rows w2"
          using Pair \<open>res1 = Inr existingRules\<close> Some q2 Inr
          by (simp add: upsertStyleRule_def bindIO_def)
        ultimately show ?thesis using c1 c2 len by simp
      qed
    qed
  qed
qed

lemma contradictionCheck_rows:
  assumes "row \<in> set (fst (contradictionCheck uid r now g))"
  shows "list_ex (\<lambda>e. etype e = ''PREFERS'' \<and> esrc e = (User, uid) \<and>
                       edst e = (StyleRule, fst row)) (edges g) \<and>
         getProp (nodeProps g StyleRule (fst row)) ''category'' = Some (S (sr_category r)) \<and>
         getProp (nodeProps g StyleRule (fst row)) ''scope'' = Some (S (sr_scope r)) \<and>
         getProp (nodeProps g StyleRule (fst row)) ''temporalMarker'' = Some (S ''current'') \<and>
         fst row \<noteq> sr_id r"
proof -
  from assms have "row \<in> set (fst (contradictionCheck uid r now g))" .
  then obtain e where e: "e \<in> set (edges g)" "etype e = ''PREFERS''" "esrc e = (User, uid)"
      "fst (edst e) = StyleRule"
      "getProp (nodeProps g StyleRule (snd (edst e))) ''category'' = Some (S (sr_category r))"
      "getProp (nodeProps g StyleRule (snd (edst e))) ''scope'' = Some (S (sr_scope r))"
      "getProp (nodeProps g StyleRule (snd (edst e))) ''temporalMarker'' = Some (S ''current'')"
      "snd (edst e) \<noteq> sr_id r" "fst row = snd (edst e)"
    unfolding contradictionCheck_def by (auto dest!: in_set_takeD)
  from e(4,9) have "edst e = (StyleRule, fst row)" by (cases "edst e") simp
  with e(1,2,3) have "list_ex (\<lambda>e. etype e = ''PREFERS'' \<and> esrc e = (User, uid) \<and>
                       edst e = (StyleRule, fst row)) (edges g)"
    unfolding list_ex_iff by blast
  with e show ?thesis by simp
qed

text \<open>
  Claim C10. For one inserted StyleRule the contradiction check of \<open>upsertStyleRule\<close>
  returns at most 5 records; each of them is a rule that the same user prefers, whose
  category and scope are the candidate's, whose marker is \<open>current\<close> and whose
  identifier differs from the candidate's; and the insertion adds at most 5
  \<open>CONTRADICTS\<close> edges to the graph, whatever the mode and the health of the store.
\<close>

theorem contradiction_check_at_most_five:
  "length (fst (contradictionCheck uid r now g)) \<le> 5 \<and>
   (\<forall>row \<in> set (fst (contradictionCheck uid r now g)).
      list_ex (\<lambda>e. etype e = ''PREFERS'' \<and> esrc e = (User, uid) \<and>
                    edst e = (StyleRule, fst row)) (edges g) \<and>
      getProp (nodeProps g StyleRule (fst row)) ''category'' = Some (S (sr_category r)) \<and>
      getProp (nodeProps g StyleRule (fst row)) ''scope'' = Some (S (sr_scope r)) \<and>
      getProp (nodeProps g StyleRule (fst row)) ''temporalMarker'' = Some (S ''current'') \<and>
      fst row \<noteq> sr_id r) \<and>
   contradictsCount (store (snd (upsertStyleRule ev uid r eid w))) \<le>
     contradictsCount (store w) + 5"
  using contradictionCheck_length [of uid r now g] upsertStyleRule_count [of ev uid r eid w]
    contradictionCheck_rows [of _ uid r now g]
  by blast

text \<open>
  A graph in which the local user prefers six current rules of the category and scope of
  \<open>briefRule\<close>, to see the limit of five at work.
\<close>

definition sixRulesGraph :: graph where
  "sixRulesGraph =
     foldl (\<lambda>g i. mergeEdge ''PREFERS'' (User, localUser) (StyleRule, i) [] [] []
                     (mergeNode StyleRule i
                        [(''category'', S ''tone''), (''content'', S ''be brief''),
                         (''scope'', S ''global''), (''temporalMarker'', S ''current'')] [] g))
       seededGraph [''r1'', ''r2'', ''r3'', ''r4'', ''r5'', ''r6'']"

lemma sixRules_rows:
  "map fst (fst (contradictionCheck localUser (briefRule\<lparr>sr_id := ''r7''\<rparr>) 0 sixRulesGraph))
   = [''r1'', ''r2'', ''r3'', ''r4'', ''r5'']"
  by code_simp

lemma sixRules_before: "contradictsCount (store (freshWorld sixRulesGraph)) = 0"
  by code_simp

lemma sixRules_after:
  "contradictsCount (store (snd (upsertStyleRule (procEnv ''OPTIONAL'' (\<lambda>n. False)) localUser
       (briefRule\<lparr>sr_id := ''r7''\<rparr>) ''x1'' (freshWorld sixRulesGraph)))) = 5"
  by code_simp

theorem contradiction_check_at_most_five_witness:
  "map fst (fst (contradictionCheck localUser (briefRule\<lparr>sr_id := ''r7''\<rparr>) 0 sixRulesGraph))
     = [''r1'', ''r2'', ''r3'', ''r4'', ''r5''] \<and>
   length (fst (contradictionCheck localUser (briefRule\<lparr>sr_id := ''r7''\<rparr>) 0 sixRulesGraph))
     \<le> 5 \<and>
   contradictsCount (store (freshWorld sixRulesGraph)) = 0 \<and>
   contradictsCount (store (snd (upsertStyleRule (procEnv ''OPTIONAL'' (\<lambda>n. False)) localUser
       (briefRule\<lparr>sr_id := ''r7''\<rparr>) ''x1'' (freshWorld sixRulesGraph)))) = 5"
  using contradiction_check_at_most_five [of localUser "briefRule\<lparr>sr_id := ''r7''\<rparr>" 0
      sixRulesGraph "procEnv ''OPTIONAL'' (\<lambda>n. False)" "''x1''" "freshWorld sixRulesGraph"]
    sixRules_rows sixRules_before sixRules_after
  by simp

text \<open>
  Claim C1, at the input where the code departs from it. The mode is OPTIONAL and the
  local user's sample input is written to the seeded graph. With a store that fails
  every contact (the connection fails), and with a store that accepts the connection
  and fails every statement, \<open>writeToGraph\<close> returns \<open>true\<close> and the graph is
  unchanged: \<open>runWriteQuery\<close> has turned every failure into \<open>null\<close>, so the \<open>catch\<close>
  of \<open>writeToGraph\<close> that returns \<open>false\<close> is never reached.
\<close>

theorem writeToGraph_true_on_optional_failure:
  "fst (writeToGraph (procEnv ''OPTIONAL'' (\<lambda>n. True)) (sampleInput localUser)
          (freshWorld seededGraph)) = Inr True \<and>
   store (snd (writeToGraph (procEnv ''OPTIONAL'' (\<lambda>n. True)) (sampleInput localUser)
          (freshWorld seededGraph))) = seededGraph \<and>
   fst (writeToGraph (procEnv ''OPTIONAL'' (\<lambda>n. 0 < n)) (sampleInput localUser)
          (freshWorld seededGraph)) = Inr True \<and>
   store (snd (writeToGraph (procEnv ''OPTIONAL'' (\<lambda>n. 0 < n)) (sampleInput localUser)
          (freshWorld seededGraph))) = seededGraph"
  by code_simp

text \<open>
  Claim C2, at the input where the code departs from it. The sample input is written
  for the user \<open>u1\<close>, who has no User node, with a healthy store. The write succeeds
  and creates the StyleRule \<open>r1\<close>, and no \<open>CREATED\<close> or \<open>ASSERTED\<close> edge leads
  from an Extraction node to it: \<open>MATCH (u:User {id})\<close> finds nothing and ends the
  statement before the provenance edge is merged.
\<close>

theorem missing_provenance:
  "fst (writeToGraph (procEnv ''OPTIONAL'' (\<lambda>n. False)) (sampleInput ''u1'')
          (freshWorld seededGraph)) = Inr True \<and>
   (let g = store (snd (writeToGraph (procEnv ''OPTIONAL'' (\<lambda>n. False)) (sampleInput ''u1'')
                     (freshWorld seededGraph)))
    in hasNode g Extraction ''x1'' \<and>
       \<not> hasNode seededGraph StyleRule ''r1'' \<and> hasNode g StyleRule ''r1'' \<and>
       provenance g (StyleRule, ''r1'') = [])"
  by code_simp

text \<open>
  The statement of \<open>upsertRelation\<close>, as it is written, has the same gap for the
  object of a triple: the \<open>ASSERTED\<close> edge goes to the subject only.
\<close>

lemma object_without_provenance:
  "fst (writeToGraph (procEnv ''OPTIONAL'' (\<lambda>n. False)) tripleInput
          (freshWorld seededGraph)) = Inr True \<and>
   (let g = store (snd (writeToGraph (procEnv ''OPTIONAL'' (\<lambda>n. False)) tripleInput
                     (freshWorld seededGraph)))
    in \<not> hasNode seededGraph Concept ''beta'' \<and> hasNode g Concept ''beta'' \<and>
       provenance g (Concept, ''beta'') = [] \<and>
       map edst (provenance g (Concept, ''alpha'')) = [(Concept, ''alpha'')])"
  by code_simp

text \<open>
  Claim C6, at the input where the code departs from it. The sample input is written
  twice for the local user, with the same extraction identifier, entities and rules and
  a healthy store. The second write creates no node and one more edge: a second
  \<open>PREFERS\<close> edge from the user to the rule \<open>r1\<close>, since the pattern of that
  \<open>MERGE\<close> holds \<open>since: datetime()\<close>.
\<close>

theorem second_write_adds_an_edge:
  "(let ev = procEnv ''OPTIONAL'' (\<lambda>n. False);
        w1 = snd (writeToGraph ev (sampleInput localUser) (freshWorld seededGraph));
        w2 = snd (writeToGraph ev (sampleInput localUser) w1)
    in fst (writeToGraph ev (sampleInput localUser) w1) = Inr True \<and>
       length (nodes (store w2)) = length (nodes (store w1)) \<and>
       length (edges (store w1)) = 4 \<and>
       length (edges (store w2)) = 5 \<and>
       length (filter (\<lambda>e. etype e = ''PREFERS'' \<and> esrc e = (User, localUser) \<and>
                            edst e = (StyleRule, ''r1'')) (edges (store w2))) = 2)"
  by code_simp

text \<open>
  Claim C9 as stated fails. The store fails the first contact only. After the failed
  attempt a later \<open>writeToGraph\<close> returns \<open>true\<close>, not \<open>false\<close>; and \<open>closeDriver\<close>
  leaves the initialization flag set, so the \<open>getDriver\<close> that follows it still
  answers \<open>null\<close> without a store contact, although the store would now accept one.
\<close>

theorem later_write_true_and_close_keeps_flag:
  "(let ev = procEnv ''OPTIONAL'' (\<lambda>n. n = 0);
        w1 = snd (getDriver ev (freshWorld seededGraph))
    in fst (getDriver ev (freshWorld seededGraph)) = Inr False \<and>
       fst (writeToGraph ev (sampleInput localUser) w1) = Inr True \<and>
       driverInitAttempted (closeDriver w1) \<and>
       getDriver ev (closeDriver w1) = (Inr False, w1) \<and>
       calls w1 = 1)"
  by code_simp

section \<open>The write path with generated identifiers (\<open>extractAndWriteToGraph\<close>)\<close>

text \<open>
  The second write path of the repository draws its identifiers from \<open>randomUUID\<close>
  and goes through the client module that exports \<open>getGraphDBConfig\<close>. The functions
  of that client module that share a name with the first one carry the suffix \<open>2\<close>
  here. In its graph the key properties are \<open>userId\<close>, \<open>sessionId\<close>, \<open>artifactId\<close>,
  \<open>name\<close>, \<open>extractionId\<close> and \<open>ruleId\<close>.
\<close>

definition getGraphRAGMode2 :: "env \<Rightarrow> string" where
  "getGraphRAGMode2 ev = (if GRAPHRAG_MODE ev = [] then ''OFF'' else GRAPHRAG_MODE ev)"

text \<open>
  Of the configuration only the mode and the strategy matter to the write path; the
  address, the credentials, the timeout and the read limits are left out.
\<close>

record GraphDBConfig =
  mode :: string
  contradictionStrategy :: string

definition getGraphDBConfig :: "env \<Rightarrow> GraphDBConfig" where
  "getGraphDBConfig ev =
     \<lparr>mode = getGraphRAGMode2 ev,
      contradictionStrategy =
        (if GRAPHRAG_CONTRADICTION_STRATEGY ev = [] then ''most-recent-wins''
         else GRAPHRAG_CONTRADICTION_STRATEGY ev)\<rparr>"

text \<open>
  \<open>session.run\<close> inside the \<open>try\<close>/\<open>catch\<close> of this module's \<open>runQuery\<close>: the error
  is thrown again as it is when the configured mode is \<open>REQUIRED\<close>. The configuration
  kept in \<open>_config\<close> at connection time is the one \<open>getGraphDBConfig\<close> returns, the
  environment of a process being fixed.
\<close>

definition sessionRun2 :: "env \<Rightarrow> 'r statement \<Rightarrow> ('r list option) io" where
  "sessionRun2 ev stmt w =
     (if fails ev (calls w)
      then (let w' = w\<lparr>calls := Suc (calls w), clock := Suc (clock w)\<rparr>
            in if mode (getGraphDBConfig ev) = ''REQUIRED''
               then (Inl (StoreError (calls w)), w')
               else (Inr None, w'))
      else (case stmt (clock w) (store w) of
              (rows, g) \<Rightarrow>
                (Inr (Some rows),
                 w\<lparr>store := g, calls := Suc (calls w), clock := Suc (clock w)\<rparr>)))"

text \<open>
  \<open>ensureGraphSchema\<close>: five constraints and three indexes, each sent with \<open>runQuery\<close>.
  They create neither nodes nor edges. The function is called from \<open>getDriver\<close> only,
  after \<open>_driver\<close> has been assigned, so the \<open>getDriver\<close> inside each of its
  \<open>runQuery\<close> calls returns that driver at once.
\<close>

definition schemaStatement :: "unit statement" where
  "schemaStatement now g = ([], g)"

definition ensureGraphSchema :: "env \<Rightarrow> unit io" where
  "ensureGraphSchema ev =
     forEach (\<lambda>q. bindIO (sessionRun2 ev schemaStatement) (\<lambda>_. returnIO ()))
       [1 ..< (9::nat)]"

text \<open>
  \<open>getDriver\<close> of this module: the driver object stays in \<open>_driver\<close> when the
  connectivity check or the schema fails; only the flag \<open>_schemaInitialized\<close> tells
  whether the schema went through.
\<close>

definition getDriver2 :: "env \<Rightarrow> bool io" where
  "getDriver2 ev w =
     (let m = getGraphRAGMode2 ev in
      if m = ''OFF'' then (Inr False, w)
      else if driver w then (Inr True, w)
      else (case (if fails ev (calls w)
                  then (Inl (StoreError (calls w)),
                        w\<lparr>driver := True, calls := Suc (calls w)\<rparr>)
                  else (if \<not> schemaInitialized w
                        then bindIO (ensureGraphSchema ev)
                               (\<lambda>_ w'. (Inr True, w'\<lparr>schemaInitialized := True\<rparr>))
                        else returnIO True)
                         (w\<lparr>driver := True, calls := Suc (calls w)\<rparr>)) of
              (Inr d, w') \<Rightarrow> (Inr d, w')
            | (Inl err, w') \<Rightarrow>
                if m = ''REQUIRED''
                then (Inl (Wrapped ''Neo4j connection failed in REQUIRED mode'' err), w')
                else (Inr False, w')))"

definition runQuery2 :: "env \<Rightarrow> 'r statement \<Rightarrow> ('r list option) io" where
  "runQuery2 ev stmt =
     bindIO (getDriver2 ev) (\<lambda>d. if \<not> d then returnIO None else sessionRun2 ev stmt)"

text \<open>\<open>randomUUID()\<close>: the next identifier of the environment's supply.\<close>

definition newUUID :: "env \<Rightarrow> string io" where
  "newUUID ev w = (Inr (randomUUID ev (uuids w)), w\<lparr>uuids := Suc (uuids w)\<rparr>)"

text \<open>A statement sent for its effect: the result of \<open>runQuery\<close> is dropped.\<close>

definition send :: "env \<Rightarrow> unit statement \<Rightarrow> unit io" where
  "send ev stmt = bindIO (runQuery2 ev stmt) (\<lambda>_. returnIO ())"

subsection \<open>\<open>ensureSessionArtifactNodes\<close>\<close>

definition mergeUserCypher :: "string \<Rightarrow> unit statement" where
  "mergeUserCypher uid now g = ([], mergeNode User uid [] [] g)"

definition mergeSessionCypher :: "string \<Rightarrow> string \<Rightarrow> unit statement" where
  "mergeSessionCypher sid uid now g =
     (let g1 = mergeNode Session sid [(''updatedAt'', T now)] [(''updatedAt'', T now)] g
      in ([], if hasNode g1 User uid
              then mergeEdge ''STARTED'' (User, uid) (Session, sid) [] [] [] g1
              else g1))"

definition mergeArtifactCypher :: "string \<Rightarrow> string \<Rightarrow> string \<Rightarrow> unit statement" where
  "mergeArtifactCypher aid sid uid now g =
     (let g1 = mergeNode Artifact aid [(''updatedAt'', T now)] [(''updatedAt'', T now)] g
      in if \<not> hasNode g1 Session sid then ([], g1)
         else (let g2 = mergeEdge ''CONTAINS'' (Session, sid) (Artifact, aid) [] [] [] g1
               in ([], if hasNode g2 User uid
                       then mergeEdge ''CREATED'' (User, uid) (Artifact, aid) [] [] [] g2
                       else g2)))"

definition ensureSessionArtifactNodes :: "env \<Rightarrow> WriteToGraphParams \<Rightarrow> unit io" where
  "ensureSessionArtifactNodes ev params =
     bindIO (send ev (mergeUserCypher (userId params)))
       (\<lambda>_. bindIO (send ev (mergeSessionCypher (sessionId params) (userId params)))
       (\<lambda>_. case artifactId params of
               None \<Rightarrow> returnIO ()
             | Some aid \<Rightarrow>
                 if aid = [] then returnIO ()
                 else send ev (mergeArtifactCypher aid (sessionId params) (userId params))))"

subsection \<open>The statements of \<open>writeExtractionToGraph\<close>\<close>

definition mergeExtractionCypher :: "string \<Rightarrow> string \<Rightarrow> unit statement" where
  "mergeExtractionCypher eid raw now g =
     ([], mergeNode Extraction eid
            [(''createdAt'', T now), (''method'', S ''rule''), (''rawSnippet'', S raw)]
            [(''createdAt'', T now), (''method'', S ''rule''), (''rawSnippet'', S raw)] g)"

definition linkSessionCypher :: "string \<Rightarrow> string \<Rightarrow> unit statement" where
  "linkSessionCypher eid sid now g =
     ([], if hasNode g Extraction eid \<and> hasNode g Session sid
          then mergeEdge ''EXTRACTED_FROM'' (Extraction, eid) (Session, sid) [] [] [] g
          else g)"

definition linkArtifactCypher :: "string \<Rightarrow> string \<Rightarrow> unit statement" where
  "linkArtifactCypher eid aid now g =
     ([], if hasNode g Extraction eid
          then mergeEdge ''EXTRACTED_FROM_ARTIFACT'' (Extraction, eid) (Artifact, aid) [] [] []
                 (mergeNode Artifact aid [] [] g)
          else g)"

definition conceptCypher :: "string \<Rightarrow> string \<Rightarrow> unit statement" where
  "conceptCypher nm eid now g =
     (let g1 = mergeNode Concept nm [(''updatedAt'', T now)] [(''updatedAt'', T now)] g
      in ([], if hasNode g1 Extraction eid
              then mergeEdge ''CREATED'' (Extraction, eid) (Concept, nm) [] [] [] g1
              else g1))"

definition mentionsCypher :: "string \<Rightarrow> string \<Rightarrow> unit statement" where
  "mentionsCypher aid nm now g =
     ([], if hasNode g Artifact aid \<and> hasNode g Concept nm
          then mergeEdge ''MENTIONS'' (Artifact, aid) (Concept, nm) [] [] [] g
          else g)"

definition relationCypher :: "ExtractedRelation \<Rightarrow> string \<Rightarrow> unit statement" where
  "relationCypher rel eid now g =
     ([], mergeEdge ''RELATED_TO'' (Concept, source rel) (Concept, target rel) [] []
            [(''type'', S (relType rel)), (''extractionId'', S eid)]
            (mergeNode Concept (target rel) [] []
               (mergeNode Concept (source rel) [] [] g)))"

text \<open>
  The query of \<open>detectAndRecordContradictions\<close>: one record for every \<open>PREFERS\<close> edge
  from the user to a StyleRule with the scope of the new rule and \<open>active: true\<close>. A
  property the node lacks is \<open>null\<close> in the record (\<open>None\<close>).
\<close>

record ActiveRule =
  existingRuleId :: string
  existingRule :: "val option"
  existingStrict :: "val option"
  existingMarker :: "val option"

definition activeRulesCypher :: "string \<Rightarrow> string \<Rightarrow> ActiveRule statement" where
  "activeRulesCypher uid sc now g =
     (map (\<lambda>e. \<lparr>existingRuleId = snd (edst e),
                 existingRule = getProp (nodeProps g StyleRule (snd (edst e))) ''rule'',
                 existingStrict = getProp (nodeProps g StyleRule (snd (edst e))) ''strict'',
                 existingMarker =
                   getProp (nodeProps g StyleRule (snd (edst e))) ''temporalMarker''\<rparr>)
        (filter (\<lambda>e. etype e = ''PREFERS'' \<and> esrc e = (User, uid) \<and>
                      fst (edst e) = StyleRule \<and>
                      getProp (nodeProps g StyleRule (snd (edst e))) ''scope'' = Some (S sc) \<and>
                      getProp (nodeProps g StyleRule (snd (edst e))) ''active'' =
                        Some (B True))
           (edges g)),
      g)"

definition contradictsCypher ::
  "string \<Rightarrow> string \<Rightarrow> string \<Rightarrow> string \<Rightarrow> string \<Rightarrow> unit statement" where
  "contradictsCypher newRuleId oldRuleId reason eid strategy now g =
     ([], if hasNode g StyleRule newRuleId \<and> hasNode g StyleRule oldRuleId
          then mergeEdge ''CONTRADICTS'' (StyleRule, newRuleId) (StyleRule, oldRuleId)
                 [(''reason'', S reason), (''createdAt'', T now), (''extractionId'', S eid),
                  (''strategy'', S strategy)] [] [] g
          else g)"

definition markPendingCypher :: "string \<Rightarrow> unit statement" where
  "markPendingCypher newRuleId now g =
     ([], setNode StyleRule newRuleId
            [(''active'', B False), (''pendingConfirmation'', B True)] g)"

definition deactivateCypher :: "string \<Rightarrow> unit statement" where
  "deactivateCypher oldRuleId now g =
     ([], setNode StyleRule oldRuleId
            [(''active'', B False), (''temporalMarker'', S ''past'')] g)"

text \<open>
  The insertion of the new rule: \<open>MERGE (sr:StyleRule {ruleId}) SET ... sr.active =
  true ...\<close>, then the \<open>PREFERS\<close> edge when the user is found, then the \<open>CREATED\<close>
  edge when the extraction is found. \<open>confidence ?? 0.5\<close> and \<open>strict ?? false\<close>
  fill the defaults.
\<close>

definition insertRuleCypher ::
  "string \<Rightarrow> ExtractedStyleRule \<Rightarrow> string \<Rightarrow> string \<Rightarrow> unit statement" where
  "insertRuleCypher ruleId r uid eid now g =
     (let ps = [(''rule'', S (rule r)), (''scope'', S (scope r)),
                (''temporalMarker'', S (temporalMarker r)), (''since'', T now),
                (''active'', B True),
                (''confidence'', N (case confidence r of None \<Rightarrow> 50 | Some c \<Rightarrow> c)),
                (''strict'', B (case strict r of None \<Rightarrow> False | Some b \<Rightarrow> b))];
          g1 = mergeNode StyleRule ruleId ps ps g
      in if \<not> hasNode g1 User uid then ([], g1)
         else (let g2 = mergeEdge ''PREFERS'' (User, uid) (StyleRule, ruleId)
                          [(''since'', T now), (''scope'', S (scope r)),
                           (''temporalMarker'', S (temporalMarker r))] [] [] g1
               in ([], if hasNode g2 Extraction eid
                       then mergeEdge ''CREATED'' (Extraction, eid) (StyleRule, ruleId)
                              [] [] [] g2
                       else g2)))"

subsection \<open>\<open>detectAndRecordContradictions\<close> and \<open>writeExtractionToGraph\<close>\<close>

text \<open>The truth value JavaScript gives a property read from a record.\<close>

fun truthyVal :: "val option \<Rightarrow> bool" where
  "truthyVal None = False"
| "truthyVal (Some (B b)) = b"
| "truthyVal (Some (S s)) = (s \<noteq> [])"
| "truthyVal (Some (N n)) = (n \<noteq> 0)"
| "truthyVal (Some v) = True"

text \<open>
  The body of the loop over the records. \<open>existingRule.toLowerCase()\<close> inside
  \<open>detectSimpleContradiction\<close> throws a \<open>TypeError\<close> when the property \<open>rule\<close> is no
  string.
\<close>

definition forRecord ::
  "env \<Rightarrow> string \<Rightarrow> ExtractedStyleRule \<Rightarrow> string \<Rightarrow> string \<Rightarrow> ActiveRule \<Rightarrow> unit io" where
  "forRecord ev newRuleId newRule eid strategy rec =
     (case existingRule rec of
        Some (S old) \<Rightarrow>
          if detectSimpleContradiction (rule newRule) old (temporalMarker newRule)
          then bindIO (send ev (contradictsCypher newRuleId (existingRuleId rec)
                                  (''New rule '' @ [doubleQuote] @ rule newRule @ [doubleQuote] @
                                   '' contradicts existing '' @ [doubleQuote] @ old @
                                   [doubleQuote])
                                  eid strategy))
                 (\<lambda>_. if truthyVal (existingStrict rec) \<and> strategy \<noteq> ''user-confirmation''
                      then send ev (markPendingCypher newRuleId)
                      else if strategy = ''most-recent-wins''
                      then send ev (deactivateCypher (existingRuleId rec))
                      else returnIO ())
          else returnIO ()
      | _ \<Rightarrow> (\<lambda>w. (Inl TypeError, w)))"

definition detectAndRecordContradictions ::
  "env \<Rightarrow> string \<Rightarrow> string \<Rightarrow> ExtractedStyleRule \<Rightarrow> string \<Rightarrow> string \<Rightarrow> unit io" where
  "detectAndRecordContradictions ev uid newRuleId newRule eid strategy =
     bindIO (runQuery2 ev (activeRulesCypher uid (scope newRule)))
       (\<lambda>result. case result of
                    None \<Rightarrow> returnIO ()
                  | Some records \<Rightarrow> forEach (forRecord ev newRuleId newRule eid strategy) records)"

text \<open>The body of the loop over the style rules (step 4 of \<open>writeExtractionToGraph\<close>).\<close>

definition forStyleRule ::
  "env \<Rightarrow> WriteToGraphParams \<Rightarrow> string \<Rightarrow> string \<Rightarrow> ExtractedStyleRule \<Rightarrow> unit io" where
  "forStyleRule ev params eid strategy r =
     bindIO (newUUID ev)
       (\<lambda>ruleId. bindIO (detectAndRecordContradictions ev (userId params) ruleId r eid strategy)
       (\<lambda>_. send ev (insertRuleCypher ruleId r (userId params) eid)))"

definition forEntity :: "env \<Rightarrow> WriteToGraphParams \<Rightarrow> string \<Rightarrow> ExtractedEntity \<Rightarrow> unit io" where
  "forEntity ev params eid entity =
     bindIO (send ev (conceptCypher (name entity) eid))
       (\<lambda>_. case artifactId params of
               None \<Rightarrow> returnIO ()
             | Some aid \<Rightarrow>
                 if aid = [] then returnIO ()
                 else send ev (mentionsCypher aid (name entity)))"

definition writeExtractionToGraph ::
  "env \<Rightarrow> WriteToGraphParams \<Rightarrow> ExtractionResult \<Rightarrow> unit io" where
  "writeExtractionToGraph ev params extraction =
     bindIO (newUUID ev)
       (\<lambda>eid. bindIO (send ev (mergeExtractionCypher eid (take 500 (rawSnippet extraction))))
       (\<lambda>_. bindIO (send ev (linkSessionCypher eid (sessionId params)))
       (\<lambda>_. bindIO (case artifactId params of
                      None \<Rightarrow> returnIO ()
                    | Some aid \<Rightarrow>
                        if aid = [] then returnIO ()
                        else send ev (linkArtifactCypher eid aid))
       (\<lambda>_. bindIO (forEach (forEntity ev params eid) (entities extraction))
       (\<lambda>_. bindIO (forEach (\<lambda>rel. send ev (relationCypher rel eid)) (relations extraction))
       (\<lambda>_. forEach (forStyleRule ev params eid (contradictionStrategy (getGraphDBConfig ev)))
              (styleRules extraction)))))))"

text \<open>
  \<open>extractAndWriteToGraph\<close>: nothing in the mode \<open>OFF\<close>; an error is thrown again in
  the mode \<open>REQUIRED\<close> and dropped with a warning otherwise.
\<close>

definition extractAndWriteToGraph :: "env \<Rightarrow> WriteToGraphParams \<Rightarrow> unit io" where
  "extractAndWriteToGraph ev params w =
     (let m = getGraphRAGMode2 ev in
      if m = ''OFF'' then (Inr (), w)
      else (case bindIO (ensureSessionArtifactNodes ev params)
                   (\<lambda>_. let extraction = extractFromMessages params
                        in if entities extraction = [] \<and> styleRules extraction = []
                           then returnIO ()
                           else writeExtractionToGraph ev params extraction) w of
              (Inr u, w') \<Rightarrow> (Inr (), w')
            | (Inl err, w') \<Rightarrow> if m = ''REQUIRED'' then (Inl err, w') else (Inr (), w')))"

text \<open>
  The scenario of two turns of one user in one session, under the strategy
  \<open>most-recent-wins\<close> with a healthy store that starts empty.
\<close>

definition turn :: "string \<Rightarrow> WriteToGraphParams" where
  "turn t =
     \<lparr>userId = ''u1'', sessionId = ''s1'', artifactId = None,
      messages = [\<lparr>role = ''human'', content = t\<rparr>], artifactContent = None\<rparr>"

definition strategyEnv :: "string \<Rightarrow> env" where
  "strategyEnv strategy =
     (procEnv ''OPTIONAL'' (\<lambda>n. False))\<lparr>GRAPHRAG_CONTRADICTION_STRATEGY := strategy\<rparr>"

definition afterTwoTurns :: "string \<Rightarrow> string \<Rightarrow> graph" where
  "afterTwoTurns first second =
     store (snd (extractAndWriteToGraph (strategyEnv ''most-recent-wins'') (turn second)
                   (snd (extractAndWriteToGraph (strategyEnv ''most-recent-wins'') (turn first)
                           (freshWorld emptyGraph)))))"

text \<open>
  The first turn draws the identifiers number 0 (its extraction) and 1 (its rule), the
  second turn the numbers 2 and 3.
\<close>

definition firstRule :: "label \<times> string" where
  "firstRule = (StyleRule, randomUUID (strategyEnv ''most-recent-wins'') 1)"

definition secondRule :: "label \<times> string" where
  "secondRule = (StyleRule, randomUUID (strategyEnv ''most-recent-wins'') 3)"

definition propOf :: "graph \<Rightarrow> label \<times> string \<Rightarrow> string \<Rightarrow> val option" where
  "propOf g x k = getProp (nodeProps g (fst x) (snd x)) k"

section \<open>Properties of \<open>extractAndWriteToGraph\<close>\<close>

text \<open>
  With the extraction of a turn known, a write in the mode OPTIONAL is the structural
  step followed by \<open>writeExtractionToGraph\<close> on that extraction.
\<close>

lemma extractAndWriteToGraph_optional:
  assumes "getGraphRAGMode2 ev = ''OPTIONAL''" "extractFromMessages params = ex"
    "styleRules ex \<noteq> []"
  shows "snd (extractAndWriteToGraph ev params w) =
         snd (bindIO (ensureSessionArtifactNodes ev params)
                (\<lambda>_. writeExtractionToGraph ev params ex) w)"
proof -
  obtain res w' where r: "bindIO (ensureSessionArtifactNodes ev params)
                (\<lambda>_. writeExtractionToGraph ev params ex) w = (res, w')"
    by (cases "bindIO (ensureSessionArtifactNodes ev params)
                (\<lambda>_. writeExtractionToGraph ev params ex) w")
  show ?thesis
    using assms r by (cases res) (simp_all add: extractAndWriteToGraph_def Let_def)
qed

lemma concise_extraction:
  "extractFromMessages (turn ''I always prefer concise responses.'') =
     \<lparr>entities = [], relations = [],
      styleRules = [\<lparr>rule = ''always prefer concise responses.'', scope = ''global'',
                     temporalMarker = ''current'', confidence = Some 70, strict = None\<rparr>],
      rawSnippet = ''I always prefer concise responses.''\<rparr>"
  by code_simp

lemma detailed_extraction:
  "extractFromMessages (turn ''I prefer detailed explanations.'') =
     \<lparr>entities = [], relations = [],
      styleRules = [\<lparr>rule = ''I prefer detailed explanations.'', scope = ''global'',
                     temporalMarker = ''current'', confidence = Some 70, strict = None\<rparr>],
      rawSnippet = ''I prefer detailed explanations.''\<rparr>"
  by code_simp

lemma strategyEnv_mode: "getGraphRAGMode2 (strategyEnv s) = ''OPTIONAL''"
  by (simp add: getGraphRAGMode2_def strategyEnv_def procEnv_def)

lemma afterTwoTurns_detailed:
  "afterTwoTurns ''I always prefer concise responses.'' ''I prefer detailed explanations.'' =
   store (snd (bindIO (ensureSessionArtifactNodes (strategyEnv ''most-recent-wins'')
                         (turn ''I prefer detailed explanations.''))
                 (\<lambda>_. writeExtractionToGraph (strategyEnv ''most-recent-wins'')
                        (turn ''I prefer detailed explanations.'')
                        \<lparr>entities = [], relations = [],
                         styleRules = [\<lparr>rule = ''I prefer detailed explanations.'',
                                        scope = ''global'', temporalMarker = ''current'',
                                        confidence = Some 70, strict = None\<rparr>],
                         rawSnippet = ''I prefer detailed explanations.''\<rparr>)
          (snd (bindIO (ensureSessionArtifactNodes (strategyEnv ''most-recent-wins'')
                         (turn ''I always prefer concise responses.''))
                 (\<lambda>_. writeExtractionToGraph (strategyEnv ''most-recent-wins'')
                        (turn ''I always prefer concise responses.'')
                        \<lparr>entities = [], relations = [],
                         styleRules = [\<lparr>rule = ''always prefer concise responses.'',
                                        scope = ''global'', temporalMarker = ''current'',
                                        confidence = Some 70, strict = None\<rparr>],
                         rawSnippet = ''I always prefer concise responses.''\<rparr>)
                 (freshWorld emptyGraph)))))"
  unfolding afterTwoTurns_def
  by (simp only: extractAndWriteToGraph_optional [OF strategyEnv_mode concise_extraction]
      extractAndWriteToGraph_optional [OF strategyEnv_mode detailed_extraction]
      ExtractionResult.simps list.distinct not_False_eq_True)

lemma scenario_graph:
  "propOf (afterTwoTurns ''I always prefer concise responses.'' ''I prefer detailed explanations.'')
     firstRule ''rule'' = Some (S ''always prefer concise responses.'')"
  "propOf (afterTwoTurns ''I always prefer concise responses.'' ''I prefer detailed explanations.'')
     firstRule ''active'' = Some (B True)"
  "propOf (afterTwoTurns ''I always prefer concise responses.'' ''I prefer detailed explanations.'')
     firstRule ''temporalMarker'' = Some (S ''current'')"
  "propOf (afterTwoTurns ''I always prefer concise responses.'' ''I prefer detailed explanations.'')
     secondRule ''rule'' = Some (S ''I prefer detailed explanations.'')"
  "propOf (afterTwoTurns ''I always prefer concise responses.'' ''I prefer detailed explanations.'')
     secondRule ''active'' = Some (B True)"
  "contradictsCount
     (afterTwoTurns ''I always prefer concise responses.'' ''I prefer detailed explanations.'') = 0"
  unfolding afterTwoTurns_detailed by code_simp+

lemma scenario_texts:
  "map rule (styleRules (extractFromMessages (turn ''I always prefer concise responses.''))) =
     [''always prefer concise responses.'']"
  "map rule (styleRules (extractFromMessages (turn ''I prefer detailed explanations.''))) =
     [''I prefer detailed explanations.'']"
  by (simp_all add: concise_extraction detailed_extraction)

lemma scenario_not_flagged:
  "\<not> detectSimpleContradiction ''I prefer detailed explanations.''
       ''always prefer concise responses.'' ''current''"
  by code_simp

lemma verbose_extraction:
  "extractFromMessages (turn ''I prefer verbose explanations.'') =
     \<lparr>entities = [], relations = [],
      styleRules = [\<lparr>rule = ''I prefer verbose explanations.'', scope = ''global'',
                     temporalMarker = ''current'', confidence = Some 70, strict = None\<rparr>],
      rawSnippet = ''I prefer verbose explanations.''\<rparr>"
  by code_simp

lemma afterTwoTurns_verbose:
  "afterTwoTurns ''I always prefer concise responses.'' ''I prefer verbose explanations.'' =
   store (snd (bindIO (ensureSessionArtifactNodes (strategyEnv ''most-recent-wins'')
                         (turn ''I prefer verbose explanations.''))
                 (\<lambda>_. writeExtractionToGraph (strategyEnv ''most-recent-wins'')
                        (turn ''I prefer verbose explanations.'')
                        \<lparr>entities = [], relations = [],
                         styleRules = [\<lparr>rule = ''I prefer verbose explanations.'',
                                        scope = ''global'', temporalMarker = ''current'',
                                        confidence = Some 70, strict = None\<rparr>],
                         rawSnippet = ''I prefer verbose explanations.''\<rparr>)
          (snd (bindIO (ensureSessionArtifactNodes (strategyEnv ''most-recent-wins'')
                         (turn ''I always prefer concise responses.''))
                 (\<lambda>_. writeExtractionToGraph (strategyEnv ''most-recent-wins'')
                        (turn ''I always prefer concise responses.'')
                        \<lparr>entities = [], relations = [],
                         styleRules = [\<lparr>rule = ''always prefer concise responses.'',
                                        scope = ''global'', temporalMarker = ''current'',
                                        confidence = Some 70, strict = None\<rparr>],
                         rawSnippet = ''I always prefer concise responses.''\<rparr>)
                 (freshWorld emptyGraph)))))"
  unfolding afterTwoTurns_def
  by (simp only: extractAndWriteToGraph_optional [OF strategyEnv_mode concise_extraction]
      extractAndWriteToGraph_optional [OF strategyEnv_mode verbose_extraction]
      ExtractionResult.simps list.distinct not_False_eq_True)

lemma verbose_graph:
  "propOf (afterTwoTurns ''I always prefer concise responses.'' ''I prefer verbose explanations.'')
     firstRule ''active'' = Some (B False)"
  "propOf (afterTwoTurns ''I always prefer concise responses.'' ''I prefer verbose explanations.'')
     firstRule ''temporalMarker'' = Some (S ''past'')"
  "propOf (afterTwoTurns ''I always prefer concise responses.'' ''I prefer verbose explanations.'')
     secondRule ''active'' = Some (B True)"
  unfolding afterTwoTurns_verbose by code_simp+

text \<open>
  Claim C3 as stated fails. After \<open>I always prefer concise responses.\<close> and then
  \<open>I prefer detailed explanations.\<close> under \<open>most-recent-wins\<close>, it is not the case
  that the first rule is inactive and past, the second active and one \<open>CONTRADICTS\<close>
  edge recorded.
\<close>

theorem concise_then_detailed_not_superseded:
  "\<not> (propOf (afterTwoTurns ''I always prefer concise responses.''
                 ''I prefer detailed explanations.'') firstRule ''active'' = Some (B False) \<and>
       propOf (afterTwoTurns ''I always prefer concise responses.''
                 ''I prefer detailed explanations.'') firstRule ''temporalMarker'' =
         Some (S ''past'') \<and>
       propOf (afterTwoTurns ''I always prefer concise responses.''
                 ''I prefer detailed explanations.'') secondRule ''active'' = Some (B True) \<and>
       contradictsCount (afterTwoTurns ''I always prefer concise responses.''
                 ''I prefer detailed explanations.'') = 1)"
  by (simp add: scenario_graph)

text \<open>
  Claim C3, as amended. The two texts yield the rules \<open>always prefer concise
  responses.\<close> and \<open>I prefer detailed explanations.\<close>, both \<open>current\<close>; no
  contradiction is flagged between them, since \<open>concise\<close>/\<open>detailed\<close> is no pair of
  the table and the marker of the new rule is not \<open>negated\<close>; so after the second write
  both rules are active, the first keeps the marker \<open>current\<close>, and there is no
  \<open>CONTRADICTS\<close> edge. When the second text is \<open>I prefer verbose explanations.\<close>,
  which the table opposes to \<open>concise\<close>, the first rule becomes inactive and \<open>past\<close>
  and the second is active.
\<close>

theorem concise_then_detailed:
  "map rule (styleRules (extractFromMessages (turn ''I always prefer concise responses.''))) =
     [''always prefer concise responses.''] \<and>
   map rule (styleRules (extractFromMessages (turn ''I prefer detailed explanations.''))) =
     [''I prefer detailed explanations.''] \<and>
   \<not> detectSimpleContradiction ''I prefer detailed explanations.''
       ''always prefer concise responses.'' ''current'' \<and>
   propOf (afterTwoTurns ''I always prefer concise responses.''
             ''I prefer detailed explanations.'') firstRule ''rule'' =
     Some (S ''always prefer concise responses.'') \<and>
   propOf (afterTwoTurns ''I always prefer concise responses.''
             ''I prefer detailed explanations.'') firstRule ''active'' = Some (B True) \<and>
   propOf (afterTwoTurns ''I always prefer concise responses.''
             ''I prefer detailed explanations.'') firstRule ''temporalMarker'' =
     Some (S ''current'') \<and>
   propOf (afterTwoTurns ''I always prefer concise responses.''
             ''I prefer detailed explanations.'') secondRule ''rule'' =
     Some (S ''I prefer detailed explanations.'') \<and>
   propOf (afterTwoTurns ''I always prefer concise responses.''
             ''I prefer detailed explanations.'') secondRule ''active'' = Some (B True) \<and>
   contradictsCount (afterTwoTurns ''I always prefer concise responses.''
             ''I prefer detailed explanations.'') = 0 \<and>
   propOf (afterTwoTurns ''I always prefer concise responses.''
             ''I prefer verbose explanations.'') firstRule ''active'' = Some (B False) \<and>
   propOf (afterTwoTurns ''I always prefer concise responses.''
             ''I prefer verbose explanations.'') firstRule ''temporalMarker'' =
     Some (S ''past'') \<and>
   propOf (afterTwoTurns ''I always prefer concise responses.''
             ''I prefer verbose explanations.'') secondRule ''active'' = Some (B True)"
  using scenario_texts scenario_not_flagged scenario_graph verbose_graph by simp

section \<open>The strict rule under \<open>detectAndRecordContradictions\<close>\<close>

text \<open>
  What a statement leaves true of the graph, an \<open>async\<close> function that sends it leaves
  true of the store.
\<close>

definition preserves :: "(graph \<Rightarrow> bool) \<Rightarrow> 'r statement \<Rightarrow> bool" where
  "preserves P stmt \<longleftrightarrow> (\<forall>now g. P g \<longrightarrow> P (snd (stmt now g)))"

definition keeps :: "(graph \<Rightarrow> bool) \<Rightarrow> 'a io \<Rightarrow> bool" where
  "keeps P m \<longleftrightarrow> (\<forall>w. P (store w) \<longrightarrow> P (store (snd (m w))))"

lemma keepsI: "(\<And>w. P (store w) \<Longrightarrow> P (store (snd (m w)))) \<Longrightarrow> keeps P m"
  by (simp add: keeps_def)

lemma keepsD: "keeps P m \<Longrightarrow> P (store w) \<Longrightarrow> P (store (snd (m w)))"
  by (simp add: keeps_def)

lemma keeps_returnIO: "keeps P (returnIO x)"
  by (simp add: keeps_def returnIO_def)

lemma keeps_bindIO:
  assumes "keeps P m" "\<And>x. keeps P (f x)"
  shows "keeps P (bindIO m f)"
proof (rule keepsI)
  fix w :: world assume p: "P (store w)"
  obtain res w' where r: "m w = (res, w')" by (cases "m w")
  from keepsD [OF assms(1) p] r have p': "P (store w')" by simp
  show "P (store (snd (bindIO m f w)))"
  proof (cases res)
    case (Inl e)
    with r p' show ?thesis by (simp add: bindIO_def)
  next
    case (Inr x)
    with r keepsD [OF assms(2) p', of x] show ?thesis by (simp add: bindIO_def)
  qed
qed

lemma keeps_forEach:
  assumes "\<And>x. x \<in> set xs \<Longrightarrow> keeps P (f x)"
  shows "keeps P (forEach f xs)"
  using assms
proof (induction xs)
  case Nil
  show ?case by (simp add: keeps_returnIO)
next
  case (Cons x xs)
  have "keeps P (f x)" by (rule Cons.prems) simp
  moreover have "keeps P (forEach f xs)" by (rule Cons.IH) (simp add: Cons.prems)
  ultimately show ?case by (simp add: keeps_bindIO)
qed

lemma keeps_sessionRun2:
  assumes "preserves P stmt"
  shows "keeps P (sessionRun2 ev stmt)"
proof (rule keepsI)
  fix w :: world assume p: "P (store w)"
  from assms p have "P (snd (stmt (clock w) (store w)))" by (simp add: preserves_def)
  with p show "P (store (snd (sessionRun2 ev stmt w)))"
    by (cases "stmt (clock w) (store w)") (simp add: sessionRun2_def Let_def)
qed

lemma preserves_schemaStatement: "preserves P schemaStatement"
  by (simp add: preserves_def schemaStatement_def)

lemma keeps_ensureGraphSchema: "keeps P (ensureGraphSchema ev)"
  unfolding ensureGraphSchema_def
  by (intro keeps_forEach keeps_bindIO keeps_sessionRun2 preserves_schemaStatement
      keeps_returnIO)

lemma keeps_getDriver2: "keeps P (getDriver2 ev)"
proof (rule keepsI)
  fix w :: world assume p: "P (store w)"
  let ?w1 = "w\<lparr>driver := True, calls := Suc (calls w)\<rparr>"
  have p1: "P (store ?w1)" using p by simp
  have k: "keeps P (bindIO (ensureGraphSchema ev)
             (\<lambda>_ w'. (Inr True, w'\<lparr>schemaInitialized := True\<rparr>)))"
    by (rule keeps_bindIO [OF keeps_ensureGraphSchema]) (simp add: keeps_def)
  have a: "P (store (snd (bindIO (ensureGraphSchema ev)
             (\<lambda>_ w'. (Inr True, w'\<lparr>schemaInitialized := True\<rparr>)) ?w1)))"
    by (rule keepsD [OF k p1])
  have b: "P (store (snd (returnIO True ?w1)))"
    using p1 by (simp add: returnIO_def)
  show "P (store (snd (getDriver2 ev w)))"
    unfolding getDriver2_def Let_def using p a b
    by (auto split: prod.splits sum.splits)
qed

lemma keeps_runQuery2:
  assumes "preserves P stmt"
  shows "keeps P (runQuery2 ev stmt)"
  unfolding runQuery2_def
  by (rule keeps_bindIO [OF keeps_getDriver2])
     (simp add: keeps_returnIO keeps_sessionRun2 [OF assms])

lemma keeps_send:
  assumes "preserves P stmt"
  shows "keeps P (send ev stmt)"
  unfolding send_def
  by (rule keeps_bindIO [OF keeps_runQuery2 [OF assms]]) (rule keeps_returnIO)

lemma store_getDriver2: "store (snd (getDriver2 ev w)) = store w"
  using keepsD [OF keeps_getDriver2 [of "\<lambda>g. g = store w" ev], of w] by simp

text \<open>Statements change the properties of the nodes they name and of no other.\<close>

lemma find_isNode_map:
  "find (isNode l k) (map (\<lambda>n. if isNode l' k' n then n\<lparr>nprops := h n\<rparr> else n) ns) =
   map_option (\<lambda>n. if isNode l' k' n then n\<lparr>nprops := h n\<rparr> else n) (find (isNode l k) ns)"
  by (induction ns) (auto simp: isNode_def)

lemma find_append_list:
  "find P (xs @ ys) = (case find P xs of None \<Rightarrow> find P ys | Some x \<Rightarrow> Some x)"
  by (induction xs) simp_all

lemma nodes_mergeEdge [simp]: "nodes (mergeEdge t a b ps c al g) = nodes g"
  by (simp add: mergeEdge_def Let_def)

lemma nodeProps_mergeEdge [simp]:
  "nodeProps (mergeEdge t a b ps c al g) l k = nodeProps g l k"
  by (simp add: nodeProps_def findNode_def)

lemma hasNode_mergeEdge [simp]: "hasNode (mergeEdge t a b ps c al g) l k = hasNode g l k"
  by (simp add: hasNode_def findNode_def)

lemma nodeProps_setNode_other:
  assumes "(l, k) \<noteq> (l', k')"
  shows "nodeProps (setNode l' k' kvs g) l k = nodeProps g l k"
proof (cases "find (isNode l k) (nodes g)")
  case None
  then show ?thesis
    by (simp add: nodeProps_def findNode_def setNode_def find_isNode_map)
next
  case (Some n)
  then have "isNode l k n" by (auto simp: find_Some_iff)
  with assms have "\<not> isNode l' k' n" by (auto simp: isNode_def)
  with Some show ?thesis
    by (simp add: nodeProps_def findNode_def setNode_def find_isNode_map)
qed

lemma hasNode_setNode [simp]: "hasNode (setNode l' k' kvs g) l k = hasNode g l k"
  by (simp add: hasNode_def findNode_def setNode_def find_isNode_map)

lemma nodeProps_mergeNode_other:
  assumes "(l, k) \<noteq> (l', k')"
  shows "nodeProps (mergeNode l' k' c m g) l k = nodeProps g l k"
proof (cases "hasNode g l' k'")
  case True
  then show ?thesis by (simp add: mergeNode_def nodeProps_setNode_other [OF assms])
next
  case False
  from assms have "\<not> isNode l k \<lparr>nlabel = l', nkey = k', nprops = c\<rparr>"
    by (auto simp: isNode_def)
  then have "find (isNode l k) (nodes g @ [\<lparr>nlabel = l', nkey = k', nprops = c\<rparr>]) =
             find (isNode l k) (nodes g)"
    by (cases "find (isNode l k) (nodes g)") (simp_all add: find_append_list)
  with False show ?thesis by (simp add: mergeNode_def nodeProps_def findNode_def)
qed

lemma nodeProps_mergeNode_new:
  assumes "\<not> hasNode g l k"
  shows "nodeProps (mergeNode l k c m g) l k = c"
proof -
  from assms have "find (isNode l k) (nodes g) = None"
    by (simp add: hasNode_def findNode_def)
  then have "find (isNode l k) (nodes g @ [\<lparr>nlabel = l, nkey = k, nprops = c\<rparr>]) =
             Some \<lparr>nlabel = l, nkey = k, nprops = c\<rparr>"
    by (simp add: find_append_list isNode_def)
  with assms show ?thesis by (simp add: mergeNode_def nodeProps_def findNode_def)
qed

text \<open>The properties of the rule \<open>x\<close> stay what they are, \<open>q\<close>.\<close>

lemma preserves_activeRules: "preserves P (activeRulesCypher uid sc)"
  by (simp add: preserves_def activeRulesCypher_def)

lemma preserves_contradicts:
  "preserves (\<lambda>g. nodeProps g l k = q) (contradictsCypher n old reason eid strategy)"
  by (simp add: preserves_def contradictsCypher_def)

lemma preserves_contradicts_absent:
  "preserves (\<lambda>g. \<not> hasNode g l k) (contradictsCypher n old reason eid strategy)"
  by (simp add: preserves_def contradictsCypher_def)

lemma preserves_markPending:
  "n \<noteq> x \<Longrightarrow> preserves (\<lambda>g. nodeProps g StyleRule x = q) (markPendingCypher n)"
  by (simp add: preserves_def markPendingCypher_def nodeProps_setNode_other)

lemma preserves_deactivate:
  "old \<noteq> x \<Longrightarrow> preserves (\<lambda>g. nodeProps g StyleRule x = q) (deactivateCypher old)"
  by (simp add: preserves_def deactivateCypher_def nodeProps_setNode_other)

lemma preserves_insertRule:
  "n \<noteq> x \<Longrightarrow> preserves (\<lambda>g. nodeProps g StyleRule x = q) (insertRuleCypher n r uid eid)"
  by (simp add: preserves_def insertRuleCypher_def Let_def nodeProps_mergeNode_other)

text \<open>
  A record of a strict rule takes the branch of the strict guard or, under
  \<open>user-confirmation\<close>, no branch; the branch that deactivates the existing rule is
  taken for records that are not strict only.
\<close>

lemma keeps_forRecord:
  assumes "n \<noteq> x" "existingRuleId rec = x \<longrightarrow> truthyVal (existingStrict rec)"
  shows "keeps (\<lambda>g. nodeProps g StyleRule x = q) (forRecord ev n r eid strategy rec)"
proof (cases "existingRule rec")
  case None
  then show ?thesis by (simp add: forRecord_def keeps_def)
next
  case (Some v)
  show ?thesis
  proof (cases v)
    case (S old)
    show ?thesis
      using assms(2) unfolding forRecord_def Some S
      by (auto intro!: keeps_bindIO keeps_send keeps_returnIO preserves_contradicts
          preserves_markPending preserves_deactivate assms(1))
  qed (simp_all add: Some forRecord_def keeps_def)
qed

lemma runQuery2_rows:
  assumes "fst (runQuery2 ev stmt w) = Inr (Some rows)"
  shows "\<exists>now. rows = fst (stmt now (store w))"
proof -
  obtain res w' where g: "getDriver2 ev w = (res, w')" by (cases "getDriver2 ev w")
  with store_getDriver2 [of ev w] have s: "store w' = store w" by simp
  show ?thesis
  proof (cases res)
    case (Inl e)
    with g assms show ?thesis by (simp add: runQuery2_def bindIO_def)
  next
    case (Inr d)
    show ?thesis
    proof (cases d)
      case False
      with g Inr assms show ?thesis by (simp add: runQuery2_def bindIO_def returnIO_def)
    next
      case True
      with g Inr assms have "fst (sessionRun2 ev stmt w') = Inr (Some rows)"
        by (simp add: runQuery2_def bindIO_def)
      then have "rows = fst (stmt (clock w') (store w'))"
        by (cases "stmt (clock w') (store w')")
           (simp add: sessionRun2_def Let_def split: if_splits)
      with s show ?thesis by auto
    qed
  qed
qed

lemma activeRules_strict:
  assumes "rec \<in> set (fst (activeRulesCypher uid sc now g))" "existingRuleId rec = x"
  shows "existingStrict rec = getProp (nodeProps g StyleRule x) ''strict''"
  using assms by (auto simp: activeRulesCypher_def)

lemma keeps_detect:
  assumes "n \<noteq> x" "truthyVal (getProp q ''strict'')"
  shows "keeps (\<lambda>g. nodeProps g StyleRule x = q)
           (detectAndRecordContradictions ev uid n r eid strategy)"
proof (rule keepsI)
  fix w :: world
  assume p: "nodeProps (store w) StyleRule x = q"
  let ?P = "\<lambda>g. nodeProps g StyleRule x = q"
  obtain res w1 where q1: "runQuery2 ev (activeRulesCypher uid (scope r)) w = (res, w1)"
    by (cases "runQuery2 ev (activeRulesCypher uid (scope r)) w")
  from keepsD [OF keeps_runQuery2 [OF preserves_activeRules], of ?P w ev uid "scope r"] p q1
  have p1: "?P (store w1)" by simp
  show "?P (store (snd (detectAndRecordContradictions ev uid n r eid strategy w)))"
  proof (cases res)
    case (Inl e)
    with q1 p1 show ?thesis by (simp add: detectAndRecordContradictions_def bindIO_def)
  next
    case (Inr result)
    show ?thesis
    proof (cases result)
      case None
      with q1 Inr p1 show ?thesis
        by (simp add: detectAndRecordContradictions_def bindIO_def returnIO_def)
    next
      case (Some records)
      from q1 Inr Some
      have "fst (runQuery2 ev (activeRulesCypher uid (scope r)) w) = Inr (Some records)"
        by simp
      from runQuery2_rows [OF this] obtain now
        where rs: "records = fst (activeRulesCypher uid (scope r) now (store w))" by blast
      have "keeps ?P (forRecord ev n r eid strategy rec)" if "rec \<in> set records" for rec
      proof (rule keeps_forRecord [OF assms(1)])
        show "existingRuleId rec = x \<longrightarrow> truthyVal (existingStrict rec)"
          using activeRules_strict [of rec uid "scope r" now "store w" x] that rs p assms(2)
          by auto
      qed
      then have "keeps ?P (forEach (forRecord ev n r eid strategy) records)"
        by (rule keeps_forEach)
      from keepsD [OF this p1] q1 Inr Some show ?thesis
        by (simp add: detectAndRecordContradictions_def bindIO_def)
    qed
  qed
qed

lemma forStyleRule_unfold:
  "forStyleRule ev params eid strategy r w =
   bindIO (detectAndRecordContradictions ev (userId params) (randomUUID ev (uuids w)) r eid
             strategy)
     (\<lambda>_. send ev (insertRuleCypher (randomUUID ev (uuids w)) r (userId params) eid))
     (w\<lparr>uuids := Suc (uuids w)\<rparr>)"
  by (simp add: forStyleRule_def bindIO_def newUUID_def)

lemma strict_rule_untouched:
  assumes "randomUUID ev (uuids w) \<noteq> x"
    "truthyVal (getProp (nodeProps (store w) StyleRule x) ''strict'')"
  shows "nodeProps (store (snd (forStyleRule ev params eid strategy r w))) StyleRule x =
         nodeProps (store w) StyleRule x"
proof -
  let ?q = "nodeProps (store w) StyleRule x"
  let ?n = "randomUUID ev (uuids w)"
  have "keeps (\<lambda>g. nodeProps g StyleRule x = ?q)
          (bindIO (detectAndRecordContradictions ev (userId params) ?n r eid strategy)
             (\<lambda>_. send ev (insertRuleCypher ?n r (userId params) eid)))"
    by (intro keeps_bindIO keeps_detect keeps_send preserves_insertRule assms)
  from keepsD [OF this, of "w\<lparr>uuids := Suc (uuids w)\<rparr>"] show ?thesis
    by (simp add: forStyleRule_unfold)
qed

text \<open>
  Under \<open>user-confirmation\<close> the loop over the records sends the \<open>CONTRADICTS\<close>
  statement only, which creates no node.
\<close>

lemma keeps_absent_forRecord:
  "keeps (\<lambda>g. \<not> hasNode g StyleRule n) (forRecord ev n r eid ''user-confirmation'' rec)"
proof (cases "existingRule rec")
  case None
  then show ?thesis by (simp add: forRecord_def keeps_def)
next
  case (Some v)
  show ?thesis
  proof (cases v)
    case (S old)
    show ?thesis
      unfolding forRecord_def Some S
      by (auto intro!: keeps_bindIO keeps_send keeps_returnIO preserves_contradicts_absent)
  qed (simp_all add: Some forRecord_def keeps_def)
qed

lemma keeps_absent_detect:
  "keeps (\<lambda>g. \<not> hasNode g StyleRule n)
     (detectAndRecordContradictions ev uid n r eid ''user-confirmation'')"
  unfolding detectAndRecordContradictions_def
  by (rule keeps_bindIO [OF keeps_runQuery2 [OF preserves_activeRules]])
     (auto split: option.splits intro!: keeps_returnIO keeps_forEach keeps_absent_forRecord)

text \<open>With a healthy store every statement sent is run.\<close>

lemma sessionRun2_healthy:
  assumes "\<not> fails ev (calls w)"
  shows "fst (sessionRun2 ev stmt w) = Inr (Some (fst (stmt (clock w) (store w)))) \<and>
         store (snd (sessionRun2 ev stmt w)) = snd (stmt (clock w) (store w))"
  using assms by (cases "stmt (clock w) (store w)") (simp add: sessionRun2_def)

lemma forEach_schema_healthy:
  assumes "\<forall>k. \<not> fails ev k"
  shows "fst (forEach (\<lambda>q. bindIO (sessionRun2 ev schemaStatement) (\<lambda>_. returnIO ())) qs w)
         = Inr ()"
proof (induction qs arbitrary: w)
  case Nil
  show ?case by (simp add: returnIO_def)
next
  case (Cons q qs)
  obtain res w' where s: "sessionRun2 ev schemaStatement w = (res, w')"
    by (cases "sessionRun2 ev schemaStatement w")
  from sessionRun2_healthy [of ev w schemaStatement] assms s
  obtain rows where "res = Inr rows" by auto
  with s Cons.IH [of w'] show ?case by (simp add: bindIO_def returnIO_def)
qed

lemma getDriver2_healthy:
  assumes "\<forall>k. \<not> fails ev k" "getGraphRAGMode2 ev \<noteq> ''OFF''"
  shows "fst (getDriver2 ev w) = Inr True"
proof -
  let ?w1 = "w\<lparr>driver := True, calls := Suc (calls w)\<rparr>"
  obtain res w' where e: "ensureGraphSchema ev ?w1 = (res, w')"
    by (cases "ensureGraphSchema ev ?w1")
  from forEach_schema_healthy [OF assms(1), of "[1 ..< (9::nat)]" ?w1] e
  have "res = Inr ()" by (simp add: ensureGraphSchema_def)
  with e assms show ?thesis
    by (simp add: getDriver2_def Let_def bindIO_def returnIO_def)
qed

lemma send_healthy:
  assumes "\<forall>k. \<not> fails ev k" "getGraphRAGMode2 ev \<noteq> ''OFF''"
  shows "\<exists>now. store (snd (send ev stmt w)) = snd (stmt now (store w))"
proof -
  obtain res w' where g: "getDriver2 ev w = (res, w')" by (cases "getDriver2 ev w")
  from getDriver2_healthy [OF assms, of w] g have r: "res = Inr True" by simp
  from store_getDriver2 [of ev w] g have s: "store w' = store w" by simp
  obtain res2 w2 where q: "sessionRun2 ev stmt w' = (res2, w2)"
    by (cases "sessionRun2 ev stmt w'")
  from sessionRun2_healthy [of ev w' stmt] assms(1) q
  have "res2 = Inr (Some (fst (stmt (clock w') (store w'))))"
    "store w2 = snd (stmt (clock w') (store w'))" by simp_all
  with g r q s have "store (snd (send ev stmt w)) = snd (stmt (clock w') (store w))"
    by (simp add: send_def runQuery2_def bindIO_def returnIO_def)
  then show ?thesis by blast
qed

lemma insertRule_props:
  assumes "\<not> hasNode g StyleRule n"
  shows "getProp (nodeProps (snd (insertRuleCypher n r uid eid now g)) StyleRule n) ''active'' =
           Some (B True)"
    and "getProp (nodeProps (snd (insertRuleCypher n r uid eid now g)) StyleRule n)
           ''pendingConfirmation'' = None"
  using assms
  by (simp_all add: insertRuleCypher_def Let_def nodeProps_mergeNode_new getProp_def)

lemma new_rule_active_under_user_confirmation:
  assumes "\<forall>k. \<not> fails ev k" "getGraphRAGMode2 ev \<noteq> ''OFF''"
    "\<not> hasNode (store w) StyleRule (randomUUID ev (uuids w))"
    "fst (forStyleRule ev params eid ''user-confirmation'' r w) = Inr ()"
  shows "getProp (nodeProps (store (snd (forStyleRule ev params eid ''user-confirmation'' r w)))
                   StyleRule (randomUUID ev (uuids w))) ''active'' = Some (B True) \<and>
         getProp (nodeProps (store (snd (forStyleRule ev params eid ''user-confirmation'' r w)))
                   StyleRule (randomUUID ev (uuids w))) ''pendingConfirmation'' = None"
proof -
  let ?n = "randomUUID ev (uuids w)"
  let ?w0 = "w\<lparr>uuids := Suc (uuids w)\<rparr>"
  obtain res w1 where d: "detectAndRecordContradictions ev (userId params) ?n r eid
                            ''user-confirmation'' ?w0 = (res, w1)"
    by (cases "detectAndRecordContradictions ev (userId params) ?n r eid
                 ''user-confirmation'' ?w0")
  have "keeps (\<lambda>g. \<not> hasNode g StyleRule ?n)
          (detectAndRecordContradictions ev (userId params) ?n r eid ''user-confirmation'')"
    by (rule keeps_absent_detect)
  from keepsD [OF this, of ?w0] assms(3) d
  have a: "\<not> hasNode (store w1) StyleRule ?n" by simp
  from assms(4) d obtain u where r: "res = Inr u"
    by (cases res) (simp_all add: forStyleRule_unfold bindIO_def)
  from send_healthy [OF assms(1,2), of "insertRuleCypher ?n r (userId params) eid" w1]
  obtain now where s: "store (snd (send ev (insertRuleCypher ?n r (userId params) eid) w1)) =
                       snd (insertRuleCypher ?n r (userId params) eid now (store w1))"
    by blast
  from d r have "forStyleRule ev params eid ''user-confirmation'' r w =
                 send ev (insertRuleCypher ?n r (userId params) eid) w1"
    by (simp add: forStyleRule_unfold bindIO_def)
  with s insertRule_props [OF a, of r "userId params" eid now] show ?thesis by simp
qed

text \<open>
  Sample data: a strict rule written through \<open>writeExtractionToGraph\<close> for the user of
  \<open>turn\<close> (after \<open>ensureSessionArtifactNodes\<close>, on an empty graph with a healthy
  store), and a later rule that the table opposes to it (\<open>formal\<close>/\<open>casual\<close>).
\<close>

definition strictRule :: ExtractedStyleRule where
  "strictRule =
     \<lparr>rule = ''Always use a formal tone'', scope = ''global'', temporalMarker = ''current'',
      confidence = Some 90, strict = Some True\<rparr>"

definition casualRule :: ExtractedStyleRule where
  "casualRule =
     \<lparr>rule = ''Keep it casual'', scope = ''global'', temporalMarker = ''current'',
      confidence = Some 70, strict = None\<rparr>"

definition rulesOnly :: "ExtractedStyleRule list \<Rightarrow> ExtractionResult" where
  "rulesOnly rs = \<lparr>entities = [], relations = [], styleRules = rs, rawSnippet = []\<rparr>"

definition strictWorld :: "string \<Rightarrow> world" where
  "strictWorld strategy =
     snd (bindIO (ensureSessionArtifactNodes (strategyEnv strategy) (turn []))
            (\<lambda>_. writeExtractionToGraph (strategyEnv strategy) (turn [])
                   (rulesOnly [strictRule]))
            (freshWorld emptyGraph))"

definition afterCasual :: "string \<Rightarrow> graph" where
  "afterCasual strategy =
     store (snd (writeExtractionToGraph (strategyEnv strategy) (turn [])
                   (rulesOnly [casualRule]) (strictWorld strategy)))"

lemma strictWorld_facts:
  "propOf (store (strictWorld ''user-confirmation'')) firstRule ''strict'' = Some (B True)"
  "propOf (store (strictWorld ''user-confirmation'')) firstRule ''active'' = Some (B True)"
  "propOf (store (strictWorld ''user-confirmation'')) firstRule ''scope'' = Some (S ''global'')"
  "uuids (strictWorld ''user-confirmation'') = 2"
  "\<not> hasNode (store (strictWorld ''user-confirmation'')) StyleRule
       (randomUUID (strategyEnv ''user-confirmation'') 2)"
  by code_simp+

lemma casual_flagged:
  "detectSimpleContradiction (rule casualRule) ''Always use a formal tone''
     (temporalMarker casualRule)"
  by code_simp

lemma casual_written:
  "fst (forStyleRule (strategyEnv ''user-confirmation'') (turn [])
          (randomUUID (strategyEnv ''user-confirmation'') 0) ''user-confirmation'' casualRule
          (strictWorld ''user-confirmation'')) = Inr ()"
  by code_simp

lemma afterCasual_facts:
  "propOf (afterCasual ''user-confirmation'') secondRule ''rule'' = Some (S ''Keep it casual'')"
  "propOf (afterCasual ''user-confirmation'') secondRule ''active'' = Some (B True)"
  "propOf (afterCasual ''user-confirmation'') secondRule ''pendingConfirmation'' = None"
  by code_simp+

lemma healthy_strategyEnv:
  "\<forall>k. \<not> fails (strategyEnv s) k" "getGraphRAGMode2 (strategyEnv s) \<noteq> ''OFF''"
  by (simp_all add: strategyEnv_def procEnv_def getGraphRAGMode2_def)

text \<open>
  Under \<open>most-recent-wins\<close> the strict guard is reached, but its statement is sent
  before the new rule is inserted and matches no node; the insertion then sets
  \<open>active = true\<close>.
\<close>

lemma strict_guard_before_insert:
  "propOf (afterCasual ''most-recent-wins'') secondRule ''active'' = Some (B True)"
  "propOf (afterCasual ''most-recent-wins'') secondRule ''pendingConfirmation'' = None"
  "propOf (afterCasual ''most-recent-wins'') firstRule ''active'' = Some (B True)"
  by code_simp+

text \<open>
  Claim C4 as stated fails. Under the strategy \<open>user-confirmation\<close> the user's active
  rule \<open>Always use a formal tone\<close> is strict and the new rule \<open>Keep it casual\<close> is
  flagged against it, and the new rule is stored with \<open>active = true\<close> and without
  \<open>pendingConfirmation\<close>.
\<close>

theorem strict_guard_skipped_under_user_confirmation:
  "propOf (store (strictWorld ''user-confirmation'')) firstRule ''strict'' = Some (B True) \<and>
   propOf (store (strictWorld ''user-confirmation'')) firstRule ''active'' = Some (B True) \<and>
   propOf (store (strictWorld ''user-confirmation'')) firstRule ''scope'' =
     Some (S (scope casualRule)) \<and>
   detectSimpleContradiction (rule casualRule) ''Always use a formal tone''
     (temporalMarker casualRule) \<and>
   propOf (afterCasual ''user-confirmation'') secondRule ''rule'' = Some (S ''Keep it casual'') \<and>
   propOf (afterCasual ''user-confirmation'') secondRule ''active'' = Some (B True) \<and>
   propOf (afterCasual ''user-confirmation'') secondRule ''pendingConfirmation'' = None"
  using strictWorld_facts casual_flagged afterCasual_facts by (simp add: casualRule_def)

text \<open>
  Claim C4, as amended. For every StyleRule insertion (one round of the loop over the
  style rules, with a fresh identifier for the new rule) and every existing rule that is
  strict and active: the existing rule is still strict and active after the insertion,
  whatever the strategy, the mode and the health of the store; and under the strategy
  \<open>user-confirmation\<close>, when the store is healthy and the insertion does not throw,
  the new rule is stored with \<open>active = true\<close> and without \<open>pendingConfirmation\<close>.
\<close>

theorem strict_rule_stays_active:
  assumes "propOf (store w) (StyleRule, x) ''strict'' = Some (B True)"
    and "propOf (store w) (StyleRule, x) ''active'' = Some (B True)"
    and "\<not> hasNode (store w) StyleRule (randomUUID ev (uuids w))"
  shows "propOf (store (snd (forStyleRule ev params eid strategy r w))) (StyleRule, x)
           ''strict'' = Some (B True) \<and>
         propOf (store (snd (forStyleRule ev params eid strategy r w))) (StyleRule, x)
           ''active'' = Some (B True) \<and>
         (strategy = ''user-confirmation'' \<and> (\<forall>k. \<not> fails ev k) \<and>
          getGraphRAGMode2 ev \<noteq> ''OFF'' \<and>
          fst (forStyleRule ev params eid strategy r w) = Inr () \<longrightarrow>
          propOf (store (snd (forStyleRule ev params eid strategy r w)))
            (StyleRule, randomUUID ev (uuids w)) ''active'' = Some (B True) \<and>
          propOf (store (snd (forStyleRule ev params eid strategy r w)))
            (StyleRule, randomUUID ev (uuids w)) ''pendingConfirmation'' = None)"
proof -
  from assms(1) have "hasNode (store w) StyleRule x"
    by (auto simp: propOf_def nodeProps_def hasNode_def getProp_def split: option.splits)
  with assms(3) have ne: "randomUUID ev (uuids w) \<noteq> x" by auto
  from assms(1) have t: "truthyVal (getProp (nodeProps (store w) StyleRule x) ''strict'')"
    by (simp add: propOf_def)
  from strict_rule_untouched [OF ne t, of params eid strategy r] assms(1,2)
  have a: "propOf (store (snd (forStyleRule ev params eid strategy r w))) (StyleRule, x)
             ''strict'' = Some (B True)"
    "propOf (store (snd (forStyleRule ev params eid strategy r w))) (StyleRule, x)
             ''active'' = Some (B True)"
    by (simp_all add: propOf_def)
  have b: "propOf (store (snd (forStyleRule ev params eid strategy r w)))
            (StyleRule, randomUUID ev (uuids w)) ''active'' = Some (B True) \<and>
          propOf (store (snd (forStyleRule ev params eid strategy r w)))
            (StyleRule, randomUUID ev (uuids w)) ''pendingConfirmation'' = None"
    if "strategy = ''user-confirmation''" "\<forall>k. \<not> fails ev k"
       "getGraphRAGMode2 ev \<noteq> ''OFF''" "fst (forStyleRule ev params eid strategy r w) = Inr ()"
    using new_rule_active_under_user_confirmation [OF that(2,3) assms(3), of params eid r] that(1,4)
    by (simp add: propOf_def)
  have c: "strategy = ''user-confirmation'' \<and> (\<forall>k. \<not> fails ev k) \<and>
          getGraphRAGMode2 ev \<noteq> ''OFF'' \<and>
          fst (forStyleRule ev params eid strategy r w) = Inr () \<longrightarrow>
          propOf (store (snd (forStyleRule ev params eid strategy r w)))
            (StyleRule, randomUUID ev (uuids w)) ''active'' = Some (B True) \<and>
          propOf (store (snd (forStyleRule ev params eid strategy r w)))
            (StyleRule, randomUUID ev (uuids w)) ''pendingConfirmation'' = None"
  proof
    assume h: "strategy = ''user-confirmation'' \<and> (\<forall>k. \<not> fails ev k) \<and>
          getGraphRAGMode2 ev \<noteq> ''OFF'' \<and>
          fst (forStyleRule ev params eid strategy r w) = Inr ()"
    from h have h1: "strategy = ''user-confirmation''" by (rule conjunct1)
    from h have h2: "\<forall>k. \<not> fails ev k" by (elim conjE)
    from h have h3: "getGraphRAGMode2 ev \<noteq> ''OFF''" by (elim conjE)
    from h have h4: "fst (forStyleRule ev params eid strategy r w) = Inr ()" by (elim conjE)
    show "propOf (store (snd (forStyleRule ev params eid strategy r w)))
            (StyleRule, randomUUID ev (uuids w)) ''active'' = Some (B True) \<and>
          propOf (store (snd (forStyleRule ev params eid strategy r w)))
            (StyleRule, randomUUID ev (uuids w)) ''pendingConfirmation'' = None"
      by (rule b [OF h1 h2 h3 h4])
  qed
  show ?thesis by (intro conjI a c)
qed

theorem strict_rule_stays_active_witness:
  "propOf (store (strictWorld ''user-confirmation'')) firstRule ''strict'' = Some (B True) \<and>
   propOf (store (strictWorld ''user-confirmation'')) firstRule ''active'' = Some (B True) \<and>
   \<not> hasNode (store (strictWorld ''user-confirmation'')) StyleRule
       (randomUUID (strategyEnv ''user-confirmation'') 2) \<and>
   detectSimpleContradiction (rule casualRule) ''Always use a formal tone''
     (temporalMarker casualRule) \<and>
   fst (forStyleRule (strategyEnv ''user-confirmation'') (turn [])
          (randomUUID (strategyEnv ''user-confirmation'') 0) ''user-confirmation'' casualRule
          (strictWorld ''user-confirmation'')) = Inr () \<and>
   propOf (store (snd (forStyleRule (strategyEnv ''user-confirmation'') (turn [])
          (randomUUID (strategyEnv ''user-confirmation'') 0) ''user-confirmation'' casualRule
          (strictWorld ''user-confirmation'')))) firstRule ''active'' = Some (B True) \<and>
   propOf (store (snd (forStyleRule (strategyEnv ''user-confirmation'') (turn [])
          (randomUUID (strategyEnv ''user-confirmation'') 0) ''user-confirmation'' casualRule
          (strictWorld ''user-confirmation''))))
     (StyleRule, randomUUID (strategyEnv ''user-confirmation'') 2) ''active'' = Some (B True) \<and>
   propOf (store (snd (forStyleRule (strategyEnv ''user-confirmation'') (turn [])
          (randomUUID (strategyEnv ''user-confirmation'') 0) ''user-confirmation'' casualRule
          (strictWorld ''user-confirmation''))))
     (StyleRule, randomUUID (strategyEnv ''user-confirmation'') 2) ''pendingConfirmation'' = None"
proof -
  have f: "firstRule = (StyleRule, randomUUID (strategyEnv ''user-confirmation'') 1)"
    by (simp add: firstRule_def strategyEnv_def procEnv_def)
  have u: "randomUUID (strategyEnv ''user-confirmation'') (uuids (strictWorld ''user-confirmation''))
           = randomUUID (strategyEnv ''user-confirmation'') 2"
    by (simp add: strictWorld_facts(4))
  from strict_rule_stays_active [of "strictWorld ''user-confirmation''"
      "randomUUID (strategyEnv ''user-confirmation'') 1" "strategyEnv ''user-confirmation''"
      "turn []" "randomUUID (strategyEnv ''user-confirmation'') 0" "''user-confirmation''"
      casualRule]
    strictWorld_facts casual_flagged casual_written healthy_strategyEnv
  show ?thesis unfolding f u by simp
qed

end
